theory Spec2Isabelle
  imports Complex_Main "HOL-Library.AList"
begin

section \<open>JavaScript values\<close>

text \<open>
  The values that travel through \<^verbatim>\<open>JSON.stringify\<close> and \<^verbatim>\<open>JSON.parse\<close>, and the
  free-form \<^verbatim>\<open>metadata\<close> of a window (\<^verbatim>\<open>Record<string, unknown>\<close>).  The number type is a
  parameter: the window manager works with integers (\<open>int jsval\<close>), a parsed text may
  hold any decimal number (\<open>rat jsval\<close>).  An object is the list of its members in
  property order; reading a property takes the last member of that name.  Strings are
  byte strings (the UTF-8 bytes of the JavaScript string).
\<close>

datatype 'n jsval =
    JUndefined
  | JNull
  | JBool bool
  | JNum 'n
  | JStr string
  | JArr "'n jsval list"
  | JObj "(string \<times> 'n jsval) list"


text \<open>Decimal digits of a number, as the conversion of an integer to a string gives
  them (template literals, \<^verbatim>\<open>JSON.stringify\<close>).\<close>

definition digit_char :: "nat \<Rightarrow> char" where
  "digit_char d = char_of (48 + d)"

fun show_nat :: "nat \<Rightarrow> string" where
  "show_nat n = (if n < 10 then [digit_char n] else show_nat (n div 10) @ [digit_char (n mod 10)])"

definition show_int :: "int \<Rightarrow> string" where
  "show_int i = (if i < 0 then CHR ''-'' # show_nat (nat (- i)) else show_nat (nat i))"


section \<open>JSON text\<close>

text \<open>
  \<^verbatim>\<open>JSON.stringify\<close> and \<^verbatim>\<open>JSON.parse\<close> are functions of the platform, not of the
  repository; they are modelled here after the ECMAScript definition (24.5), on byte
  strings and with integers as the numbers that are printed.
\<close>

subsection \<open>\<^verbatim>\<open>JSON.stringify\<close>\<close>

definition hex_char :: "nat \<Rightarrow> char" where
  "hex_char d = (if d < 10 then char_of (48 + d) else char_of (87 + d))"

text \<open>\<^verbatim>\<open>QuoteJSONString\<close>: the quotation mark, the backslash and the control characters are
  escaped, everything else is copied.\<close>

definition escape_char :: "char \<Rightarrow> string" where
  "escape_char c =
     (if c = CHR 0x22 then [CHR 0x5C, CHR 0x22]
      else if c = CHR 0x5C then [CHR 0x5C, CHR 0x5C]
      else if c = CHR 0x08 then [CHR 0x5C, CHR ''b'']
      else if c = CHR 0x0C then [CHR 0x5C, CHR ''f'']
      else if c = CHR 0x0A then [CHR 0x5C, CHR ''n'']
      else if c = CHR 0x0D then [CHR 0x5C, CHR ''r'']
      else if c = CHR 0x09 then [CHR 0x5C, CHR ''t'']
      else if (of_char c :: nat) < 32
      then [CHR 0x5C, CHR ''u'', CHR ''0'', CHR ''0'',
            hex_char ((of_char c :: nat) div 16), hex_char ((of_char c :: nat) mod 16)]
      else [c])"

definition quote :: "string \<Rightarrow> string" where
  "quote s = CHR 0x22 # concat (map escape_char s) @ [CHR 0x22]"

fun join_with :: "string \<Rightarrow> string list \<Rightarrow> string" where
  "join_with sep [] = []"
| "join_with sep [s] = s"
| "join_with sep (s # t # ts) = s @ sep @ join_with sep (t # ts)"

text \<open>\<^verbatim>\<open>SerializeJSONProperty\<close>: \<open>None\<close> is the result \<^verbatim>\<open>undefined\<close>.  An array element
  that serializes to \<^verbatim>\<open>undefined\<close> is printed as \<^verbatim>\<open>null\<close>; an object member that does is
  left out.\<close>

fun stringify :: "int jsval \<Rightarrow> string option"
  and stringify_elements :: "int jsval list \<Rightarrow> string list"
  and stringify_members :: "(string \<times> int jsval) list \<Rightarrow> string list" where
  "stringify JUndefined = None"
| "stringify JNull = Some ''null''"
| "stringify (JBool b) = Some (if b then ''true'' else ''false'')"
| "stringify (JNum n) = Some (show_int n)"
| "stringify (JStr s) = Some (quote s)"
| "stringify (JArr xs) = Some (''['' @ join_with '','' (stringify_elements xs) @ '']'')"
| "stringify (JObj ms) = Some (''{'' @ join_with '','' (stringify_members ms) @ ''}'')"
| "stringify_elements [] = []"
| "stringify_elements (x # xs) =
     (case stringify x of Some s \<Rightarrow> s | None \<Rightarrow> ''null'') # stringify_elements xs"
| "stringify_members [] = []"
| "stringify_members ((k, v) # ms) =
     (case stringify v of
        Some s \<Rightarrow> (quote k @ '':'' @ s) # stringify_members ms
      | None \<Rightarrow> stringify_members ms)"

subsection \<open>\<^verbatim>\<open>JSON.parse\<close>\<close>

definition is_ws :: "char \<Rightarrow> bool" where
  "is_ws c = (c = CHR '' '' \<or> c = CHR 0x09 \<or> c = CHR 0x0A \<or> c = CHR 0x0D)"

definition skip_ws :: "string \<Rightarrow> string" where
  "skip_ws s = dropWhile is_ws s"

definition is_digit :: "char \<Rightarrow> bool" where
  "is_digit c = (48 \<le> (of_char c :: nat) \<and> (of_char c :: nat) \<le> 57)"

definition digits_val :: "string \<Rightarrow> nat" where
  "digits_val ds = foldl (\<lambda>n c. 10 * n + ((of_char c :: nat) - 48)) 0 ds"

definition hex_val :: "char \<Rightarrow> nat option" where
  "hex_val c =
     (let n = (of_char c :: nat)
      in if 48 \<le> n \<and> n \<le> 57 then Some (n - 48)
         else if 97 \<le> n \<and> n \<le> 102 then Some (n - 87)
         else if 65 \<le> n \<and> n \<le> 70 then Some (n - 55)
         else None)"

text \<open>The bytes of a \<^verbatim>\<open>\uXXXX\<close> escape (each escape is encoded on its own).\<close>

definition utf8_encode :: "nat \<Rightarrow> string" where
  "utf8_encode n =
     (if n < 128 then [char_of n]
      else if n < 2048 then [char_of (192 + n div 64), char_of (128 + n mod 64)]
      else [char_of (224 + n div 4096), char_of (128 + (n div 64) mod 64), char_of (128 + n mod 64)])"

definition unescape :: "char \<Rightarrow> char option" where
  "unescape e =
     (if e = CHR 0x22 then Some (CHR 0x22)
      else if e = CHR 0x5C then Some (CHR 0x5C)
      else if e = CHR ''/'' then Some (CHR ''/'')
      else if e = CHR ''b'' then Some (CHR 0x08)
      else if e = CHR ''f'' then Some (CHR 0x0C)
      else if e = CHR ''n'' then Some (CHR 0x0A)
      else if e = CHR ''r'' then Some (CHR 0x0D)
      else if e = CHR ''t'' then Some (CHR 0x09)
      else None)"

text \<open>The characters of a string literal after the opening quotation mark, up to and
  including the closing one: the string and the rest of the text.\<close>

fun parse_chars :: "string \<Rightarrow> (string \<times> string) option" where
  "parse_chars [] = None"
| "parse_chars (c # cs) =
     (if c = CHR 0x22 then Some ([], cs)
      else if c = CHR 0x5C
      then (case cs of
              [] \<Rightarrow> None
            | e # r \<Rightarrow>
                if e = CHR ''u''
                then (case r of
                        h1 # h2 # h3 # h4 # r' \<Rightarrow>
                          (case (hex_val h1, hex_val h2, hex_val h3, hex_val h4) of
                             (Some a, Some b, Some c, Some d) \<Rightarrow>
                               (case parse_chars r' of
                                  Some (s, rest) \<Rightarrow>
                                    Some (utf8_encode (((a * 16 + b) * 16 + c) * 16 + d) @ s, rest)
                                | None \<Rightarrow> None)
                           | _ \<Rightarrow> None)
                      | _ \<Rightarrow> None)
                else (case unescape e of
                        None \<Rightarrow> None
                      | Some ch \<Rightarrow>
                          (case parse_chars r of
                             Some (s, rest) \<Rightarrow> Some (ch # s, rest)
                           | None \<Rightarrow> None)))
      else if (of_char c :: nat) < 32 then None
      else (case parse_chars cs of
              Some (s, rest) \<Rightarrow> Some (c # s, rest)
            | None \<Rightarrow> None))"

text \<open>A number: \<^verbatim>\<open>-? (0 | [1-9][0-9]*) (. [0-9]+)? ([eE] [+-]? [0-9]+)?\<close>.\<close>

definition parse_frac :: "string \<Rightarrow> (string \<times> string) option" where
  "parse_frac s =
     (case s of
        [] \<Rightarrow> Some ([], s)
      | c # r \<Rightarrow>
          if c = CHR ''.''
          then (if takeWhile is_digit r = [] then None
                else Some (takeWhile is_digit r, dropWhile is_digit r))
          else Some ([], s))"

definition parse_exp :: "string \<Rightarrow> (int \<times> string) option" where
  "parse_exp s =
     (case s of
        [] \<Rightarrow> Some (0, s)
      | c # r \<Rightarrow>
          if c = CHR ''e'' \<or> c = CHR ''E''
          then
            (let (sg, r1) = (case r of
                               [] \<Rightarrow> (1, r)
                             | d # r' \<Rightarrow>
                                 if d = CHR ''+'' then (1, r')
                                 else if d = CHR ''-'' then (- 1, r')
                                 else (1, r))
             in if takeWhile is_digit r1 = [] then None
                else Some (sg * int (digits_val (takeWhile is_digit r1)), dropWhile is_digit r1))
          else Some (0, s))"

definition scale10 :: "rat \<Rightarrow> int \<Rightarrow> rat" where
  "scale10 q ex = (if 0 \<le> ex then q * 10 ^ nat ex else q / 10 ^ nat (- ex))"

text \<open>The digits, fraction and exponent of a number, after the sign.\<close>

definition parse_magnitude :: "bool \<Rightarrow> string \<Rightarrow> (rat \<times> string) option" where
  "parse_magnitude neg s =
     (case s of
        [] \<Rightarrow> None
      | c # r \<Rightarrow>
          if \<not> is_digit c then None
          else
            (case parse_frac (if c = CHR ''0'' then r else dropWhile is_digit s) of
               None \<Rightarrow> None
             | Some (fp, s3) \<Rightarrow>
                 (case parse_exp s3 of
                    None \<Rightarrow> None
                  | Some (ex, s4) \<Rightarrow>
                      Some (scale10
                              ((if neg then - 1 else 1) *
                               (of_nat (digits_val (if c = CHR ''0'' then [c] else takeWhile is_digit s)) +
                                of_nat (digits_val fp) / 10 ^ length fp))
                              ex,
                            s4))))"

definition parse_number :: "string \<Rightarrow> (rat \<times> string) option" where
  "parse_number s =
     (case s of
        [] \<Rightarrow> None
      | c # r \<Rightarrow> if c = CHR ''-'' then parse_magnitude True r else parse_magnitude False s)"

text \<open>A value, the elements of an array after the opening bracket, and the members of
  an object after the opening brace.  The first argument bounds the depth of the calls;
  \<open>JSON_parse\<close> starts with more than the text can use.\<close>

fun parse_value :: "nat \<Rightarrow> string \<Rightarrow> (rat jsval \<times> string) option"
  and parse_elements :: "nat \<Rightarrow> string \<Rightarrow> (rat jsval list \<times> string) option"
  and parse_members :: "nat \<Rightarrow> string \<Rightarrow> ((string \<times> rat jsval) list \<times> string) option" where
  "parse_value 0 s = None"
| "parse_value (Suc n) s =
     (case s of
        [] \<Rightarrow> None
      | c # cs \<Rightarrow>
          if c = CHR 0x22
          then (case parse_chars cs of Some (str, r) \<Rightarrow> Some (JStr str, r) | None \<Rightarrow> None)
          else if c = CHR ''[''
          then (case skip_ws cs of
                  [] \<Rightarrow> None
                | d # r \<Rightarrow>
                    if d = CHR '']'' then Some (JArr [], r)
                    else (case parse_elements n (d # r) of
                            Some (xs, r') \<Rightarrow> Some (JArr xs, r')
                          | None \<Rightarrow> None))
          else if c = CHR ''{''
          then (case skip_ws cs of
                  [] \<Rightarrow> None
                | d # r \<Rightarrow>
                    if d = CHR ''}'' then Some (JObj [], r)
                    else (case parse_members n (d # r) of
                            Some (ms, r') \<Rightarrow> Some (JObj ms, r')
                          | None \<Rightarrow> None))
          else if take 4 s = ''true'' then Some (JBool True, drop 4 s)
          else if take 5 s = ''false'' then Some (JBool False, drop 5 s)
          else if take 4 s = ''null'' then Some (JNull, drop 4 s)
          else (case parse_number s of Some (q, r) \<Rightarrow> Some (JNum q, r) | None \<Rightarrow> None))"
| "parse_elements 0 s = None"
| "parse_elements (Suc n) s =
     (case parse_value n s of
        None \<Rightarrow> None
      | Some (v, r) \<Rightarrow>
          (case skip_ws r of
             [] \<Rightarrow> None
           | d # r' \<Rightarrow>
               if d = CHR '',''
               then (case parse_elements n (skip_ws r') of
                       Some (vs, r'') \<Rightarrow> Some (v # vs, r'')
                     | None \<Rightarrow> None)
               else if d = CHR '']'' then Some ([v], r')
               else None))"
| "parse_members 0 s = None"
| "parse_members (Suc n) s =
     (case s of
        [] \<Rightarrow> None
      | c # cs \<Rightarrow>
          if c \<noteq> CHR 0x22 then None
          else (case parse_chars cs of
                  None \<Rightarrow> None
                | Some (k, r) \<Rightarrow>
                    (case skip_ws r of
                       [] \<Rightarrow> None
                     | d # r1 \<Rightarrow>
                         if d \<noteq> CHR '':'' then None
                         else (case parse_value n (skip_ws r1) of
                                 None \<Rightarrow> None
                               | Some (v, r2) \<Rightarrow>
                                   (case skip_ws r2 of
                                      [] \<Rightarrow> None
                                    | e # r3 \<Rightarrow>
                                        if e = CHR '',''
                                        then (case parse_members n (skip_ws r3) of
                                                Some (ms, r4) \<Rightarrow> Some ((k, v) # ms, r4)
                                              | None \<Rightarrow> None)
                                        else if e = CHR ''}'' then Some ([(k, v)], r3)
                                        else None)))))"

text \<open>\<open>None\<close> is the \<^verbatim>\<open>SyntaxError\<close> that \<^verbatim>\<open>JSON.parse\<close> throws.\<close>

definition JSON_parse :: "string \<Rightarrow> rat jsval option" where
  "JSON_parse s =
     (case parse_value (Suc (length s)) (skip_ws s) of
        None \<Rightarrow> None
      | Some (v, r) \<Rightarrow> if skip_ws r = [] then Some v else None)"

text \<open>What a value is after it has been printed and parsed: numbers are the same
  numbers, \<^verbatim>\<open>undefined\<close> array elements have become \<^verbatim>\<open>null\<close>, and \<^verbatim>\<open>undefined\<close> object
  members are gone.\<close>

fun reparsed :: "int jsval \<Rightarrow> rat jsval"
  and reparsed_elements :: "int jsval list \<Rightarrow> rat jsval list"
  and reparsed_members :: "(string \<times> int jsval) list \<Rightarrow> (string \<times> rat jsval) list" where
  "reparsed JUndefined = JNull"
| "reparsed JNull = JNull"
| "reparsed (JBool b) = JBool b"
| "reparsed (JNum n) = JNum (of_int n)"
| "reparsed (JStr s) = JStr s"
| "reparsed (JArr xs) = JArr (reparsed_elements xs)"
| "reparsed (JObj ms) = JObj (reparsed_members ms)"
| "reparsed_elements [] = []"
| "reparsed_elements (x # xs) = reparsed x # reparsed_elements xs"
| "reparsed_members [] = []"
| "reparsed_members ((k, v) # ms) =
     (if v = JUndefined then reparsed_members ms else (k, reparsed v) # reparsed_members ms)"

text \<open>The text ends here, or goes on with a comma or a closing bracket or brace.\<close>

definition at_delimiter :: "string \<Rightarrow> bool" where
  "at_delimiter s =
     (case s of [] \<Rightarrow> True | c # r \<Rightarrow> c = CHR '','' \<or> c = CHR '']'' \<or> c = CHR ''}'')"

text \<open>The first character of a printed value.\<close>

definition value_start :: "char \<Rightarrow> bool" where
  "value_start c \<longleftrightarrow>
     c = CHR ''n'' \<or> c = CHR ''t'' \<or> c = CHR ''f'' \<or> c = CHR ''-'' \<or> is_digit c \<or>
     c = CHR 0x22 \<or> c = CHR ''['' \<or> c = CHR ''{''"

subsection \<open>Reading parsed values\<close>

text \<open>Reading a property whose name is not an index and not \<^verbatim>\<open>length\<close>: \<open>None\<close> is the
  \<^verbatim>\<open>TypeError\<close> of reading from \<^verbatim>\<open>null\<close> or \<^verbatim>\<open>undefined\<close>; a value that has no such property
  gives \<^verbatim>\<open>undefined\<close>.\<close>

definition field :: "(string \<times> 'n jsval) list \<Rightarrow> string \<Rightarrow> 'n jsval" where
  "field ms k = (case map_of (rev ms) k of Some v \<Rightarrow> v | None \<Rightarrow> JUndefined)"

fun property :: "'n jsval \<Rightarrow> string \<Rightarrow> 'n jsval option" where
  "property JUndefined k = None"
| "property JNull k = None"
| "property (JObj ms) k = Some (field ms k)"
| "property v k = Some JUndefined"

text \<open>The entries \<^verbatim>\<open>new Map(x)\<close> adds, in order: nothing for \<^verbatim>\<open>undefined\<close>, \<^verbatim>\<open>null\<close> and the
  empty string; for an array, the properties \<^verbatim>\<open>0\<close> and \<^verbatim>\<open>1\<close> of each item, which has to be
  an object; \<open>None\<close> is the \<^verbatim>\<open>TypeError\<close> for everything else.\<close>

definition entry_of :: "'n jsval \<Rightarrow> ('n jsval \<times> 'n jsval) option" where
  "entry_of item =
     (case item of
        JArr ys \<Rightarrow>
          Some (if 0 < length ys then ys ! 0 else JUndefined,
                if 1 < length ys then ys ! 1 else JUndefined)
      | JObj ms \<Rightarrow> Some (field ms ''0'', field ms ''1'')
      | _ \<Rightarrow> None)"

fun entries_of :: "'n jsval list \<Rightarrow> ('n jsval \<times> 'n jsval) list option" where
  "entries_of [] = Some []"
| "entries_of (item # items) =
     (case entry_of item of
        None \<Rightarrow> None
      | Some e \<Rightarrow> (case entries_of items of None \<Rightarrow> None | Some es \<Rightarrow> Some (e # es)))"

definition map_entries :: "'n jsval \<Rightarrow> ('n jsval \<times> 'n jsval) list option" where
  "map_entries v =
     (case v of
        JUndefined \<Rightarrow> Some []
      | JNull \<Rightarrow> Some []
      | JArr items \<Rightarrow> entries_of items
      | JStr s \<Rightarrow> if s = [] then Some [] else None
      | _ \<Rightarrow> None)"

text \<open>A parsed value as data of the model: its numbers have to be integers.\<close>

definition as_int :: "rat \<Rightarrow> int option" where
  "as_int q = (if of_int \<lfloor>q\<rfloor> = q then Some \<lfloor>q\<rfloor> else None)"

fun as_data :: "rat jsval \<Rightarrow> int jsval option"
  and as_data_elements :: "rat jsval list \<Rightarrow> int jsval list option"
  and as_data_members :: "(string \<times> rat jsval) list \<Rightarrow> (string \<times> int jsval) list option" where
  "as_data JUndefined = None"
| "as_data JNull = Some JNull"
| "as_data (JBool b) = Some (JBool b)"
| "as_data (JNum q) = (case as_int q of Some i \<Rightarrow> Some (JNum i) | None \<Rightarrow> None)"
| "as_data (JStr s) = Some (JStr s)"
| "as_data (JArr xs) = (case as_data_elements xs of Some ys \<Rightarrow> Some (JArr ys) | None \<Rightarrow> None)"
| "as_data (JObj ms) = (case as_data_members ms of Some ns \<Rightarrow> Some (JObj ns) | None \<Rightarrow> None)"
| "as_data_elements [] = Some []"
| "as_data_elements (x # xs) =
     (case as_data x of
        None \<Rightarrow> None
      | Some y \<Rightarrow> (case as_data_elements xs of None \<Rightarrow> None | Some ys \<Rightarrow> Some (y # ys)))"
| "as_data_members [] = Some []"
| "as_data_members ((k, v) # ms) =
     (case as_data v of
        None \<Rightarrow> None
      | Some y \<Rightarrow> (case as_data_members ms of None \<Rightarrow> None | Some ns \<Rightarrow> Some ((k, y) # ns)))"

text \<open>Data as it is after a trip through \<^verbatim>\<open>JSON.stringify\<close> and \<^verbatim>\<open>JSON.parse\<close>.\<close>

fun persisted :: "int jsval \<Rightarrow> int jsval"
  and persisted_elements :: "int jsval list \<Rightarrow> int jsval list"
  and persisted_members :: "(string \<times> int jsval) list \<Rightarrow> (string \<times> int jsval) list" where
  "persisted JUndefined = JNull"
| "persisted JNull = JNull"
| "persisted (JBool b) = JBool b"
| "persisted (JNum n) = JNum n"
| "persisted (JStr s) = JStr s"
| "persisted (JArr xs) = JArr (persisted_elements xs)"
| "persisted (JObj ms) = JObj (persisted_members ms)"
| "persisted_elements [] = []"
| "persisted_elements (x # xs) = persisted x # persisted_elements xs"
| "persisted_members [] = []"
| "persisted_members ((k, v) # ms) =
     (if v = JUndefined then persisted_members ms else (k, persisted v) # persisted_members ms)"

section \<open>Window manager: data\<close>

text \<open>\<^verbatim>\<open>window.types.ts\<close>: \<^verbatim>\<open>WindowPosition\<close>, \<^verbatim>\<open>WindowSize\<close>, \<^verbatim>\<open>WindowBounds\<close>,
  \<^verbatim>\<open>WindowState\<close>, \<^verbatim>\<open>WindowConstraints\<close>, \<^verbatim>\<open>WindowEvent\<close>.  Numbers are integers.\<close>

record position =
  pos_x :: int
  pos_y :: int

record wsize =
  width :: int
  height :: int

record bounds =
  b_position :: position
  b_size :: wsize

record partial_bounds =
  pb_position :: "position option"
  pb_size :: "wsize option"

record window =
  wid :: string
  w_appId :: string
  w_bounds :: bounds
  zIndex :: int
  isFocused :: bool
  isMinimized :: bool
  isMaximized :: bool
  isVisible :: bool
  metadata :: "(string \<times> int jsval) list option"

record constraints =
  minWidth :: "int option"
  minHeight :: "int option"
  maxWidth :: "int option"
  maxHeight :: "int option"
  canResize :: "bool option"
  canMove :: "bool option"
  canMinimize :: "bool option"
  canMaximize :: "bool option"
  canClose :: "bool option"

datatype window_event =
    EvCreate string window
  | EvDestroy string
  | EvFocus string
  | EvBlur string
  | EvMove string position
  | EvResize string wsize
  | EvMinimize string
  | EvRestore string
  | EvMaximize string

datatype wm_error = WindowExists string

text \<open>
  The private state of \<^verbatim>\<open>createWindowManager\<close>.  \<open>windows\<close> is the \<^verbatim>\<open>Map\<close> of the source
  as the list of its entries in insertion order; \<open>pending\<close> is the queue of zero-delay
  timers, each of which will call \<^verbatim>\<open>api.focusWindow(id)\<close>; \<open>emitted\<close> is the sequence of
  events handed to the subscribers (subscribers are taken not to call back into the
  manager).
\<close>

record manager =
  windows :: "(string \<times> window) list"
  windowOrder :: "string list"
  focusedWindowId :: "string option"
  nextZIndex :: int
  windowConstraints :: "string \<rightharpoonup> constraints"
  pending :: "string list"
  emitted :: "window_event list"

definition initial_manager :: manager where
  "initial_manager =
     \<lparr>windows = [], windowOrder = [], focusedWindowId = None, nextZIndex = 1,
      windowConstraints = Map.empty, pending = [], emitted = []\<rparr>"

section \<open>Window manager: operations\<close>

definition emit :: "window_event \<Rightarrow> manager \<Rightarrow> manager" where
  "emit e m = m\<lparr>emitted := emitted m @ [e]\<rparr>"

text \<open>A field assignment on the window object stored under a key.\<close>

definition modify :: "string \<Rightarrow> (window \<Rightarrow> window) \<Rightarrow> manager \<Rightarrow> manager" where
  "modify k f m = m\<lparr>windows := AList.map_entry k f (windows m)\<rparr>"

text \<open>\<^verbatim>\<open>updateZIndices\<close>: the \<^verbatim>\<open>forEach\<close> over the order, with the running index.\<close>

fun updateZIndices_from :: "int \<Rightarrow> string list \<Rightarrow> (string \<times> window) list \<Rightarrow> (string \<times> window) list" where
  "updateZIndices_from i [] ws = ws"
| "updateZIndices_from i (k # ks) ws =
     updateZIndices_from (i + 1) ks (AList.map_entry k (\<lambda>w. w\<lparr>zIndex := i + 1\<rparr>) ws)"

definition updateZIndices :: "manager \<Rightarrow> manager" where
  "updateZIndices m =
     m\<lparr>windows := updateZIndices_from 0 (windowOrder m) (windows m),
       nextZIndex := int (length (windowOrder m)) + 1\<rparr>"

definition bringToFront :: "string \<Rightarrow> manager \<Rightarrow> manager" where
  "bringToFront k m =
     (case map_of (windows m) k of
        None \<Rightarrow> m
      | Some _ \<Rightarrow> updateZIndices (m\<lparr>windowOrder := filter (\<lambda>w. w \<noteq> k) (windowOrder m) @ [k]\<rparr>))"

text \<open>\<^verbatim>\<open>getTopmostWindow\<close>: the loop runs from the last index down; the argument here is
  the order reversed.\<close>

fun topmost_in :: "(string \<times> window) list \<Rightarrow> string list \<Rightarrow> window option" where
  "topmost_in ws [] = None"
| "topmost_in ws (k # ks) =
     (case map_of ws k of
        Some w \<Rightarrow> if \<not> isMinimized w \<and> isVisible w then Some w else topmost_in ws ks
      | None \<Rightarrow> topmost_in ws ks)"

definition getTopmostWindow :: "manager \<Rightarrow> window option" where
  "getTopmostWindow m = topmost_in (windows m) (rev (windowOrder m))"

definition defaultBounds :: bounds where
  "defaultBounds = \<lparr>b_position = \<lparr>pos_x = 50, pos_y = 50\<rparr>, b_size = \<lparr>width = 400, height = 300\<rparr>\<rparr>"

definition createWindow ::
  "string \<Rightarrow> string \<Rightarrow> partial_bounds option \<Rightarrow> constraints option \<Rightarrow>
   (string \<times> int jsval) list option \<Rightarrow> manager \<Rightarrow> wm_error + (window \<times> manager)" where
  "createWindow k app initialBounds cs md m =
     (if map_of (windows m) k \<noteq> None then Inl (WindowExists k)
      else
        let bnds = \<lparr>b_position =
                      (case initialBounds of
                         Some b \<Rightarrow> (case pb_position b of Some p \<Rightarrow> p | None \<Rightarrow> b_position defaultBounds)
                       | None \<Rightarrow> b_position defaultBounds),
                    b_size =
                      (case initialBounds of
                         Some b \<Rightarrow> (case pb_size b of Some s \<Rightarrow> s | None \<Rightarrow> b_size defaultBounds)
                       | None \<Rightarrow> b_size defaultBounds)\<rparr>;
            windowState = \<lparr>wid = k, w_appId = app, w_bounds = bnds, zIndex = nextZIndex m,
                           isFocused = False, isMinimized = False, isMaximized = False,
                           isVisible = True, metadata = md\<rparr>;
            m1 = m\<lparr>nextZIndex := nextZIndex m + 1,
                   windows := AList.update k windowState (windows m),
                   windowOrder := windowOrder m @ [k]\<rparr>;
            m2 = (case cs of
                    Some c \<Rightarrow> m1\<lparr>windowConstraints := (windowConstraints m1)(k \<mapsto> c)\<rparr>
                  | None \<Rightarrow> m1);
            m3 = emit (EvCreate k windowState) m2
        in Inr (windowState, m3\<lparr>pending := pending m3 @ [k]\<rparr>))"

definition destroyWindow :: "string \<Rightarrow> manager \<Rightarrow> manager" where
  "destroyWindow k m =
     (case map_of (windows m) k of
        None \<Rightarrow> m
      | Some _ \<Rightarrow>
          let m1 = m\<lparr>windows := AList.delete k (windows m),
                     windowOrder := filter (\<lambda>w. w \<noteq> k) (windowOrder m),
                     windowConstraints := (windowConstraints m)(k := None)\<rparr>;
              m2 = (if focusedWindowId m1 = Some k
                    then (case getTopmostWindow m1 of
                            Some nextWindow \<Rightarrow> m1\<lparr>pending := pending m1 @ [wid nextWindow]\<rparr>
                          | None \<Rightarrow> m1\<lparr>focusedWindowId := None\<rparr>)
                    else m1)
          in emit (EvDestroy k) m2)"

text \<open>\<^verbatim>\<open>state.focusedWindowId && state.focusedWindowId !== id\<close>: \<^verbatim>\<open>null\<close> and the empty
  string are both falsy.\<close>

definition focusWindow :: "string \<Rightarrow> manager \<Rightarrow> manager" where
  "focusWindow k m =
     (case map_of (windows m) k of
        None \<Rightarrow> m
      | Some w \<Rightarrow>
          if isMinimized w then m
          else
            let m1 = (case focusedWindowId m of
                        None \<Rightarrow> m
                      | Some f \<Rightarrow>
                          if f \<noteq> [] \<and> f \<noteq> k
                          then (case map_of (windows m) f of
                                  Some _ \<Rightarrow> emit (EvBlur f) (modify f (\<lambda>p. p\<lparr>isFocused := False\<rparr>) m)
                                | None \<Rightarrow> m)
                          else m);
                m2 = bringToFront k m1;
                m3 = (modify k (\<lambda>p. p\<lparr>isFocused := True\<rparr>) m2)\<lparr>focusedWindowId := Some k\<rparr>
            in emit (EvFocus k) m3)"

definition minimizeWindow :: "string \<Rightarrow> manager \<Rightarrow> manager" where
  "minimizeWindow k m =
     (case map_of (windows m) k of
        None \<Rightarrow> m
      | Some w \<Rightarrow>
          if isMinimized w then m
          else
            let m1 = modify k (\<lambda>p. p\<lparr>isMinimized := True, isFocused := False\<rparr>) m;
                m2 = (if focusedWindowId m1 = Some k
                      then (case getTopmostWindow m1 of
                              Some nextWindow \<Rightarrow> focusWindow (wid nextWindow) m1
                            | None \<Rightarrow> m1\<lparr>focusedWindowId := None\<rparr>)
                      else m1)
            in emit (EvMinimize k) m2)"

definition maximizeWindow :: "string \<Rightarrow> manager \<Rightarrow> manager" where
  "maximizeWindow k m =
     (case map_of (windows m) k of
        None \<Rightarrow> m
      | Some w \<Rightarrow>
          if isMaximized w then m
          else emit (EvMaximize k) (modify k (\<lambda>p. p\<lparr>isMaximized := True\<rparr>) m))"

definition restoreWindow :: "string \<Rightarrow> manager \<Rightarrow> manager" where
  "restoreWindow k m =
     (case map_of (windows m) k of
        None \<Rightarrow> m
      | Some w \<Rightarrow>
          let m1 = (if isMinimized w
                    then focusWindow k (modify k (\<lambda>p. p\<lparr>isMinimized := False, isVisible := True\<rparr>) m)
                    else if isMaximized w
                    then modify k (\<lambda>p. p\<lparr>isMaximized := False\<rparr>) m
                    else m)
          in emit (EvRestore k) m1)"

definition moveWindow :: "string \<Rightarrow> position \<Rightarrow> manager \<Rightarrow> manager" where
  "moveWindow k p m =
     (case map_of (windows m) k of
        None \<Rightarrow> m
      | Some _ \<Rightarrow>
          if (case windowConstraints m k of Some c \<Rightarrow> canMove c = Some False | None \<Rightarrow> False)
          then m
          else emit (EvMove k p)
                 (modify k (\<lambda>w. w\<lparr>w_bounds := (w_bounds w)\<lparr>b_position := p\<rparr>\<rparr>) m))"

text \<open>\<^verbatim>\<open>if (constraints.minWidth) ...\<close>: an absent limit and a limit of 0 are both
  skipped.\<close>

definition atLeast_limit :: "int option \<Rightarrow> int \<Rightarrow> int" where
  "atLeast_limit bd v = (case bd of Some l \<Rightarrow> if l \<noteq> 0 then max v l else v | None \<Rightarrow> v)"

definition atMost_limit :: "int option \<Rightarrow> int \<Rightarrow> int" where
  "atMost_limit bd v = (case bd of Some l \<Rightarrow> if l \<noteq> 0 then min v l else v | None \<Rightarrow> v)"

definition clampSize :: "constraints option \<Rightarrow> wsize \<Rightarrow> wsize" where
  "clampSize cs s =
     (case cs of
        None \<Rightarrow> s
      | Some c \<Rightarrow>
          \<lparr>width = atMost_limit (maxWidth c) (atLeast_limit (minWidth c) (width s)),
           height = atMost_limit (maxHeight c) (atLeast_limit (minHeight c) (height s))\<rparr>)"

definition resizeWindow :: "string \<Rightarrow> wsize \<Rightarrow> manager \<Rightarrow> manager" where
  "resizeWindow k s m =
     (case map_of (windows m) k of
        None \<Rightarrow> m
      | Some _ \<Rightarrow>
          if (case windowConstraints m k of Some c \<Rightarrow> canResize c = Some False | None \<Rightarrow> False)
          then m
          else
            let s' = clampSize (windowConstraints m k) s
            in emit (EvResize k s')
                 (modify k (\<lambda>w. w\<lparr>w_bounds := (w_bounds w)\<lparr>b_size := s'\<rparr>\<rparr>) m))"

definition getAllWindows :: "manager \<Rightarrow> window list" where
  "getAllWindows m = map snd (windows m)"

definition getFocusedWindow :: "manager \<Rightarrow> window option" where
  "getFocusedWindow m =
     (case focusedWindowId m of
        None \<Rightarrow> None
      | Some f \<Rightarrow> if f \<noteq> [] then map_of (windows m) f else None)"

text \<open>One zero-delay timer fires: the oldest queued \<^verbatim>\<open>api.focusWindow(id)\<close> runs.\<close>

definition runDeferred :: "manager \<Rightarrow> manager" where
  "runDeferred m =
     (case pending m of
        [] \<Rightarrow> m
      | k # ks \<Rightarrow> focusWindow k (m\<lparr>pending := ks\<rparr>))"

text \<open>The states the public operations can produce from the initial one, the timers
  firing in the order they were queued, at any point between two calls.\<close>

inductive reachable :: "manager \<Rightarrow> bool" where
  r_init: "reachable initial_manager"
| r_create: "reachable m \<Longrightarrow> createWindow k app b cs md m = Inr (w, m') \<Longrightarrow> reachable m'"
| r_destroy: "reachable m \<Longrightarrow> reachable (destroyWindow k m)"
| r_focus: "reachable m \<Longrightarrow> reachable (focusWindow k m)"
| r_minimize: "reachable m \<Longrightarrow> reachable (minimizeWindow k m)"
| r_maximize: "reachable m \<Longrightarrow> reachable (maximizeWindow k m)"
| r_restore: "reachable m \<Longrightarrow> reachable (restoreWindow k m)"
| r_move: "reachable m \<Longrightarrow> reachable (moveWindow k p m)"
| r_resize: "reachable m \<Longrightarrow> reachable (resizeWindow k s m)"
| r_deferred: "reachable m \<Longrightarrow> reachable (runDeferred m)"


subsection \<open>Well-formed registries\<close>

text \<open>The data invariant of the registry: the map has one entry per key, the stacking
  order lists exactly the keys, once each, every window is stored under its own id, and
  only live windows have a constraint set.\<close>

definition well_formed :: "manager \<Rightarrow> bool" where
  "well_formed m \<longleftrightarrow>
     distinct (map fst (windows m)) \<and> distinct (windowOrder m) \<and>
     set (windowOrder m) = set (map fst (windows m)) \<and>
     (\<forall>k w. map_of (windows m) k = Some w \<longrightarrow> wid w = k) \<and>
     dom (windowConstraints m) \<subseteq> set (map fst (windows m))"

subsection \<open>Scenarios\<close>

text \<open>\<^verbatim>\<open>createWindow(k, 'app')\<close> with no bounds, constraints or metadata; the manager is
  unchanged when the call throws.\<close>

definition opened :: "string \<Rightarrow> manager \<Rightarrow> manager" where
  "opened k m = (case createWindow k ''app'' None None None m of Inr (w, m') \<Rightarrow> m' | Inl e \<Rightarrow> m)"

text \<open>Windows \<^verbatim>\<open>a\<close> and \<^verbatim>\<open>b\<close> are created, both auto-focus timers run, then \<^verbatim>\<open>a\<close> (which
  is below \<^verbatim>\<open>b\<close> and not focused) is destroyed.\<close>

definition lower_window_destroyed :: manager where
  "lower_window_destroyed =
     destroyWindow ''a'' (runDeferred (runDeferred (opened ''b'' (opened ''a'' initial_manager))))"

text \<open>A window whose id is the empty string is created and auto-focused, then window
  \<^verbatim>\<open>b\<close> is created and auto-focused.\<close>

definition empty_id_then_b :: manager where
  "empty_id_then_b = runDeferred (opened ''b'' (runDeferred (opened [] initial_manager)))"

text \<open>A single focused window \<^verbatim>\<open>a\<close> whose constraint set forbids everything.\<close>

definition forbid_all :: constraints where
  "forbid_all =
     \<lparr>minWidth = None, minHeight = None, maxWidth = None, maxHeight = None,
      canResize = Some False, canMove = Some False, canMinimize = Some False,
      canMaximize = Some False, canClose = Some False\<rparr>"

definition locked_window :: manager where
  "locked_window =
     runDeferred
       (case createWindow ''a'' ''app'' None (Some forbid_all) None initial_manager of
          Inr (w, m') \<Rightarrow> m' | Inl e \<Rightarrow> initial_manager)"

section \<open>Window manager: persistence\<close>

subsection \<open>\<^verbatim>\<open>getSerializedState\<close>\<close>

text \<open>The objects \<^verbatim>\<open>JSON.stringify\<close> walks, with their properties in creation order.  The
  constraint map is not among them.\<close>

definition position_json :: "position \<Rightarrow> int jsval" where
  "position_json p = JObj [(''x'', JNum (pos_x p)), (''y'', JNum (pos_y p))]"

definition size_json :: "wsize \<Rightarrow> int jsval" where
  "size_json s = JObj [(''width'', JNum (width s)), (''height'', JNum (height s))]"

definition bounds_json :: "bounds \<Rightarrow> int jsval" where
  "bounds_json b =
     JObj [(''position'', position_json (b_position b)), (''size'', size_json (b_size b))]"

definition window_json :: "window \<Rightarrow> int jsval" where
  "window_json w =
     JObj [(''id'', JStr (wid w)), (''appId'', JStr (w_appId w)), (''bounds'', bounds_json (w_bounds w)),
           (''zIndex'', JNum (zIndex w)), (''isFocused'', JBool (isFocused w)),
           (''isMinimized'', JBool (isMinimized w)), (''isMaximized'', JBool (isMaximized w)),
           (''isVisible'', JBool (isVisible w)),
           (''metadata'', case metadata w of None \<Rightarrow> JUndefined | Some md \<Rightarrow> JObj md)]"

definition serializable :: "manager \<Rightarrow> (string \<times> int jsval) list" where
  "serializable m =
     [(''windows'', JArr (map (\<lambda>(k, w). JArr [JStr k, window_json w]) (windows m))),
      (''windowOrder'', JArr (map JStr (windowOrder m))),
      (''focusedWindowId'', case focusedWindowId m of None \<Rightarrow> JNull | Some f \<Rightarrow> JStr f),
      (''nextZIndex'', JNum (nextZIndex m))]"

text \<open>\<^verbatim>\<open>JSON.stringify\<close> of an object is always a string.\<close>

definition getSerializedState :: "manager \<Rightarrow> string" where
  "getSerializedState m = ''{'' @ join_with '','' (stringify_members (serializable m)) @ ''}''"

subsection \<open>\<^verbatim>\<open>loadSerializedState\<close>\<close>

text \<open>The object the source assigns to \<^verbatim>\<open>state\<close>, before any typing: the entries handed
  to \<^verbatim>\<open>new Map\<close> and the three other properties of the parsed value, whatever they are.\<close>

record raw_state =
  raw_windows :: "(rat jsval \<times> rat jsval) list"
  raw_windowOrder :: "rat jsval"
  raw_focusedWindowId :: "rat jsval"
  raw_nextZIndex :: "rat jsval"

text \<open>Building that object; \<open>None\<close> is a \<^verbatim>\<open>TypeError\<close> on the way (reading a property of
  \<^verbatim>\<open>null\<close>, or \<^verbatim>\<open>new Map\<close> of something it cannot iterate).\<close>

definition load_raw :: "rat jsval \<Rightarrow> raw_state option" where
  "load_raw parsed =
     (case property parsed ''windows'' of
        None \<Rightarrow> None
      | Some ws \<Rightarrow>
          (case map_entries ws of
             None \<Rightarrow> None
           | Some es \<Rightarrow>
               (case (property parsed ''windowOrder'', property parsed ''focusedWindowId'',
                      property parsed ''nextZIndex'') of
                  (Some ord, Some foc, Some nz) \<Rightarrow>
                    Some \<lparr>raw_windows = es, raw_windowOrder = ord, raw_focusedWindowId = foc,
                          raw_nextZIndex = nz\<rparr>
                | _ \<Rightarrow> None)))"

text \<open>Reading the raw object as a \<^verbatim>\<open>WindowManagerState\<close>: \<open>None\<close> when it is not one (a
  property is missing or of another type, an object has a property the type does not
  have) or holds a number that is not an integer.\<close>

definition only_keys :: "string list \<Rightarrow> (string \<times> 'a) list \<Rightarrow> bool" where
  "only_keys allowed ms = list_all (\<lambda>kv. fst kv \<in> set allowed) ms"

definition as_number :: "rat jsval \<Rightarrow> int option" where
  "as_number v = (case v of JNum q \<Rightarrow> as_int q | _ \<Rightarrow> None)"

definition as_string :: "rat jsval \<Rightarrow> string option" where
  "as_string v = (case v of JStr s \<Rightarrow> Some s | _ \<Rightarrow> None)"

definition as_bool :: "rat jsval \<Rightarrow> bool option" where
  "as_bool v = (case v of JBool b \<Rightarrow> Some b | _ \<Rightarrow> None)"

definition as_position :: "rat jsval \<Rightarrow> position option" where
  "as_position v =
     (case v of
        JObj ms \<Rightarrow>
          if \<not> only_keys [''x'', ''y''] ms then None
          else (case (as_number (field ms ''x''), as_number (field ms ''y'')) of
                  (Some a, Some b) \<Rightarrow> Some \<lparr>pos_x = a, pos_y = b\<rparr>
                | _ \<Rightarrow> None)
      | _ \<Rightarrow> None)"

definition as_size :: "rat jsval \<Rightarrow> wsize option" where
  "as_size v =
     (case v of
        JObj ms \<Rightarrow>
          if \<not> only_keys [''width'', ''height''] ms then None
          else (case (as_number (field ms ''width''), as_number (field ms ''height'')) of
                  (Some a, Some b) \<Rightarrow> Some \<lparr>width = a, height = b\<rparr>
                | _ \<Rightarrow> None)
      | _ \<Rightarrow> None)"

definition as_bounds :: "rat jsval \<Rightarrow> bounds option" where
  "as_bounds v =
     (case v of
        JObj ms \<Rightarrow>
          if \<not> only_keys [''position'', ''size''] ms then None
          else (case (as_position (field ms ''position''), as_size (field ms ''size'')) of
                  (Some p, Some s) \<Rightarrow> Some \<lparr>b_position = p, b_size = s\<rparr>
                | _ \<Rightarrow> None)
      | _ \<Rightarrow> None)"

definition as_metadata :: "rat jsval \<Rightarrow> (string \<times> int jsval) list option option" where
  "as_metadata v =
     (case v of
        JUndefined \<Rightarrow> Some None
      | JObj ms \<Rightarrow> (case as_data_members ms of Some md \<Rightarrow> Some (Some md) | None \<Rightarrow> None)
      | _ \<Rightarrow> None)"

definition as_window :: "rat jsval \<Rightarrow> window option" where
  "as_window v =
     (case v of
        JObj ms \<Rightarrow>
          if \<not> only_keys [''id'', ''appId'', ''bounds'', ''zIndex'', ''isFocused'', ''isMinimized'',
                            ''isMaximized'', ''isVisible'', ''metadata''] ms
          then None
          else
            (case (as_string (field ms ''id''), as_string (field ms ''appId''),
                   as_bounds (field ms ''bounds''), as_number (field ms ''zIndex'')) of
               (Some i, Some a, Some b, Some z) \<Rightarrow>
                 (case (as_bool (field ms ''isFocused''), as_bool (field ms ''isMinimized''),
                        as_bool (field ms ''isMaximized''), as_bool (field ms ''isVisible''),
                        as_metadata (field ms ''metadata'')) of
                    (Some f, Some mi, Some ma, Some vi, Some md) \<Rightarrow>
                      Some \<lparr>wid = i, w_appId = a, w_bounds = b, zIndex = z, isFocused = f,
                            isMinimized = mi, isMaximized = ma, isVisible = vi, metadata = md\<rparr>
                  | _ \<Rightarrow> None)
             | _ \<Rightarrow> None)
      | _ \<Rightarrow> None)"

text \<open>The \<^verbatim>\<open>Map\<close> built from the entries: a later entry with the key of an earlier one
  replaces its value.\<close>

fun as_windows :: "(rat jsval \<times> rat jsval) list \<Rightarrow> (string \<times> window) list \<Rightarrow> (string \<times> window) list option" where
  "as_windows [] acc = Some acc"
| "as_windows ((k, v) # es) acc =
     (case (as_string k, as_window v) of
        (Some key, Some w) \<Rightarrow> as_windows es (AList.update key w acc)
      | _ \<Rightarrow> None)"

fun as_strings :: "rat jsval list \<Rightarrow> string list option" where
  "as_strings [] = Some []"
| "as_strings (x # xs) =
     (case (as_string x, as_strings xs) of
        (Some s, Some ss) \<Rightarrow> Some (s # ss)
      | _ \<Rightarrow> None)"

definition typed_state :: "raw_state \<Rightarrow> manager \<Rightarrow> manager option" where
  "typed_state r m =
     (case (as_windows (raw_windows r) [],
            (case raw_windowOrder r of JArr xs \<Rightarrow> as_strings xs | _ \<Rightarrow> None),
            (case raw_focusedWindowId r of
               JNull \<Rightarrow> Some None
             | JStr f \<Rightarrow> Some (Some f)
             | _ \<Rightarrow> None),
            as_number (raw_nextZIndex r)) of
        (Some ws, Some ord, Some foc, Some nz) \<Rightarrow>
          Some (m\<lparr>windows := ws, windowOrder := ord, focusedWindowId := foc, nextZIndex := nz\<rparr>)
      | _ \<Rightarrow> None)"

text \<open>
  What \<^verbatim>\<open>loadSerializedState\<close> does to a manager.
  \<^item> \<open>Rejected m\<close>: \<^verbatim>\<open>JSON.parse\<close> or the construction of the new state threw; the error
    was caught and written to the console, the call returned normally and the manager is
    \<open>m\<close>.
  \<^item> \<open>Loaded m\<close>: \<^verbatim>\<open>state\<close> was replaced by a well-typed state; the manager is \<open>m\<close>.
  \<^item> \<open>LoadedUntyped r m\<close>: \<^verbatim>\<open>state\<close> was replaced by the object \<open>r\<close>, which is not a
    \<^verbatim>\<open>WindowManagerState\<close> of this model; \<open>m\<close> is the manager before the call, of which
    the constraint map, the timers and the event log are still current.
\<close>

datatype load_result = Rejected manager | Loaded manager | LoadedUntyped raw_state manager

definition loadSerializedState :: "string \<Rightarrow> manager \<Rightarrow> load_result" where
  "loadSerializedState serializedState m =
     (case JSON_parse serializedState of
        None \<Rightarrow> Rejected m
      | Some parsed \<Rightarrow>
          (case load_raw parsed of
             None \<Rightarrow> Rejected m
           | Some r \<Rightarrow>
               (case typed_state r m of
                  Some m' \<Rightarrow> Loaded m'
                | None \<Rightarrow> LoadedUntyped r m)))"

text \<open>The constraint map after a load, whatever the outcome.\<close>

definition constraints_after :: "load_result \<Rightarrow> (string \<rightharpoonup> constraints)" where
  "constraints_after r =
     (case r of
        Rejected m \<Rightarrow> windowConstraints m
      | Loaded m \<Rightarrow> windowConstraints m
      | LoadedUntyped raw m \<Rightarrow> windowConstraints m)"

text \<open>A window as it is after a save and a load, and the windows whose metadata is plain
  JSON data.\<close>

definition persisted_window :: "window \<Rightarrow> window" where
  "persisted_window w = w\<lparr>metadata := map_option persisted_members (metadata w)\<rparr>"


subsection \<open>Scenarios\<close>

text \<open>A window whose metadata holds an array with an \<^verbatim>\<open>undefined\<close> element.\<close>

definition sparse_metadata_window :: manager where
  "sparse_metadata_window =
     runDeferred
       (case createWindow ''a'' ''app'' None None (Some [(''slots'', JArr [JUndefined])])
               initial_manager of
          Inr (w, m') \<Rightarrow> m' | Inl e \<Rightarrow> initial_manager)"

text \<open>A window whose metadata is plain JSON data.\<close>

definition tagged_window :: manager where
  "tagged_window =
     runDeferred
       (case createWindow ''a'' ''app'' None None
               (Some [(''title'', JStr ''Notes''), (''tabs'', JArr [JNum 1, JNum 2]),
                      (''pinned'', JBool True)])
               initial_manager of
          Inr (w, m') \<Rightarrow> m' | Inl e \<Rightarrow> initial_manager)"

section \<open>Application registry and lifecycle manager\<close>

text \<open>
  \<^verbatim>\<open>application.types.ts\<close>.  Of a manifest the model keeps the identity, the capability
  flags and the launch options; of a component its optional lifecycle hooks, each of
  which either returns or throws.  The \<^verbatim>\<open>async\<close> operations are run to completion: no
  other call is interleaved at an \<^verbatim>\<open>await\<close>.
\<close>

record capabilities =
  supportsMultipleInstances :: "bool option"
  supportsSuspend :: "bool option"
  supportsBackgroundMode :: "bool option"

record launch_options =
  singleton :: "bool option"
  autoStart :: "bool option"

record manifest =
  manifest_id :: string
  manifest_capabilities :: capabilities
  launchOptions :: "launch_options option"

record app_context =
  ctx_args :: "string list option"
  ctx_workingDirectory :: "string option"

datatype hook_result = Returns | Throws

record component =
  onMount :: "(app_context \<Rightarrow> hook_result) option"
  onUnmount :: "hook_result option"
  onSuspend :: "hook_result option"
  onResume :: "hook_result option"

record registered_application =
  app_manifest :: manifest
  app_component :: component
  registeredAt :: int

datatype application_state = Unloaded | Loading | Running | Suspended | Stopping | Crashed

record app_instance =
  iid :: string
  i_appId :: string
  i_state :: application_state
  windowIds :: "string list"
  startTime :: int
  lastActiveTime :: int
  i_context :: app_context

datatype application_event =
    AppRegister string manifest
  | AppUnregister string
  | AppLaunch string string app_context
  | AppTerminate string "string option"
  | AppSuspend string
  | AppResume string
  | AppStateChange string application_state application_state
  | AppError string

datatype app_error = AlreadyRegistered string | NotInRegistry string

text \<open>The registry singleton and the lifecycle manager singleton together:
  \<open>applications\<close> and \<open>instances\<close> are the two \<^verbatim>\<open>Map\<close>s, as entry lists in insertion
  order; \<open>messageHandlers\<close> lists the instance ids that have a handler; \<open>app_emitted\<close> is
  the sequence of events handed to the subscribers.\<close>

record app_manager =
  applications :: "(string \<times> registered_application) list"
  instances :: "(string \<times> app_instance) list"
  messageHandlers :: "string list"
  app_emitted :: "application_event list"

definition app_emit :: "application_event \<Rightarrow> app_manager \<Rightarrow> app_manager" where
  "app_emit e st = st\<lparr>app_emitted := app_emitted st @ [e]\<rparr>"

definition register :: "manifest \<Rightarrow> component \<Rightarrow> int \<Rightarrow> app_manager \<Rightarrow> app_error + app_manager" where
  "register mf cmp now st =
     (if map_of (applications st) (manifest_id mf) \<noteq> None
      then Inl (AlreadyRegistered (manifest_id mf))
      else Inr (app_emit (AppRegister (manifest_id mf) mf)
             (st\<lparr>applications :=
                   AList.update (manifest_id mf)
                     \<lparr>app_manifest = mf, app_component = cmp, registeredAt = now\<rparr>
                     (applications st)\<rparr>)))"

definition unregister :: "string \<Rightarrow> app_manager \<Rightarrow> bool \<times> app_manager" where
  "unregister a st =
     (case map_of (applications st) a of
        None \<Rightarrow> (False, st)
      | Some _ \<Rightarrow>
          (True, app_emit (AppUnregister a) (st\<lparr>applications := AList.delete a (applications st)\<rparr>)))"

definition getApplication :: "string \<Rightarrow> app_manager \<Rightarrow> registered_application option" where
  "getApplication a st = map_of (applications st) a"

definition transitionState ::
  "string \<Rightarrow> application_state \<Rightarrow> application_state \<Rightarrow> app_manager \<Rightarrow> app_manager" where
  "transitionState i from to st =
     (case map_of (instances st) i of
        None \<Rightarrow> st
      | Some inst \<Rightarrow>
          if i_state inst \<noteq> from then st
          else app_emit (AppStateChange i from to)
                 (st\<lparr>instances := AList.map_entry i (\<lambda>x. x\<lparr>i_state := to\<rparr>) (instances st)\<rparr>))"

definition focusInstance :: "string \<Rightarrow> int \<Rightarrow> app_manager \<Rightarrow> app_manager" where
  "focusInstance i now st =
     st\<lparr>instances := AList.map_entry i (\<lambda>x. x\<lparr>lastActiveTime := now\<rparr>) (instances st)\<rparr>"

definition findInstanceByAppId :: "string \<Rightarrow> app_manager \<Rightarrow> app_instance option" where
  "findInstanceByAppId a st = find (\<lambda>x. i_appId x = a) (map snd (instances st))"

definition getInstance :: "string \<Rightarrow> app_manager \<Rightarrow> app_instance option" where
  "getInstance i st = map_of (instances st) i"

text \<open>
  \<^verbatim>\<open>launch\<close>.  \<open>now\<close> is the value of \<^verbatim>\<open>Date.now()\<close> (the clock reads of one call are taken
  to agree) and \<open>rnd\<close> the nine characters taken from \<^verbatim>\<open>Math.random()\<close>.  The instance
  returned is the object as it is when the call returns, read back under its id.
\<close>

definition launch ::
  "string \<Rightarrow> app_context \<Rightarrow> int \<Rightarrow> string \<Rightarrow> app_manager \<Rightarrow> app_error + (app_instance \<times> app_manager)" where
  "launch a ctx now rnd st =
     (case getApplication a st of
        None \<Rightarrow> Inl (NotInRegistry a)
      | Some app \<Rightarrow>
          (case (if (case launchOptions (app_manifest app) of
                       Some lo \<Rightarrow> singleton lo = Some True | None \<Rightarrow> False)
                 then findInstanceByAppId a st else None) of
             Some existingInstance \<Rightarrow>
               let st1 = focusInstance (iid existingInstance) now st
               in Inr (case map_of (instances st1) (iid existingInstance) of
                         Some x \<Rightarrow> x | None \<Rightarrow> existingInstance,
                       st1)
           | None \<Rightarrow>
               let instanceId = a @ ''-'' @ show_int now @ ''-'' @ rnd;
                   inst = \<lparr>iid = instanceId, i_appId = a, i_state = Loading, windowIds = [],
                           startTime = now, lastActiveTime = now, i_context = ctx\<rparr>;
                   st1 = app_emit (AppLaunch a instanceId ctx)
                           (st\<lparr>instances := AList.update instanceId inst (instances st)\<rparr>);
                   st2 = transitionState instanceId Loading Running st1;
                   st3 = (case onMount (app_component app) of
                            None \<Rightarrow> st2
                          | Some hook \<Rightarrow>
                              (case hook ctx of
                                 Returns \<Rightarrow> st2
                               | Throws \<Rightarrow>
                                   app_emit (AppError instanceId)
                                     (transitionState instanceId Running Crashed st2)))
               in Inr (case map_of (instances st3) instanceId of Some x \<Rightarrow> x | None \<Rightarrow> inst,
                       st3)))"

text \<open>\<^verbatim>\<open>terminate\<close>: a failure of the unmount hook is logged and changes nothing.\<close>

definition terminate :: "string \<Rightarrow> string option \<Rightarrow> app_manager \<Rightarrow> app_manager" where
  "terminate i reason st =
     (case map_of (instances st) i of
        None \<Rightarrow> st
      | Some inst \<Rightarrow>
          let st1 = transitionState i (i_state inst) Stopping st;
              st2 = st1\<lparr>instances := AList.delete i (instances st1),
                        messageHandlers := filter (\<lambda>h. h \<noteq> i) (messageHandlers st1)\<rparr>
          in app_emit (AppTerminate i reason) st2)"

definition suspend :: "string \<Rightarrow> app_manager \<Rightarrow> app_manager" where
  "suspend i st =
     (case map_of (instances st) i of
        None \<Rightarrow> st
      | Some inst \<Rightarrow>
          if i_state inst \<noteq> Running then st
          else app_emit (AppSuspend i) (transitionState i Running Suspended st))"

definition resume :: "string \<Rightarrow> int \<Rightarrow> app_manager \<Rightarrow> app_manager" where
  "resume i now st =
     (case map_of (instances st) i of
        None \<Rightarrow> st
      | Some inst \<Rightarrow>
          if i_state inst \<noteq> Suspended then st
          else app_emit (AppResume i)
                 (focusInstance i now (transitionState i Suspended Running st)))"

definition addWindowToInstance :: "string \<Rightarrow> string \<Rightarrow> int \<Rightarrow> app_manager \<Rightarrow> app_manager" where
  "addWindowToInstance i w now st =
     (case map_of (instances st) i of
        None \<Rightarrow> st
      | Some inst \<Rightarrow>
          if w \<in> set (windowIds inst) then st
          else st\<lparr>instances :=
                    AList.map_entry i
                      (\<lambda>x. x\<lparr>windowIds := windowIds x @ [w], lastActiveTime := now\<rparr>)
                      (instances st)\<rparr>)"

text \<open>\<^verbatim>\<open>removeWindowFromInstance\<close>: \<^verbatim>\<open>!app?.manifest.capabilities.supportsBackgroundMode\<close>
  holds when the application is not registered, and when the flag is absent or false.\<close>

definition removeWindowFromInstance :: "string \<Rightarrow> string \<Rightarrow> app_manager \<Rightarrow> app_manager" where
  "removeWindowFromInstance i w st =
     (case map_of (instances st) i of
        None \<Rightarrow> st
      | Some inst \<Rightarrow>
          let remaining = filter (\<lambda>x. x \<noteq> w) (windowIds inst);
              st1 = st\<lparr>instances :=
                         AList.map_entry i (\<lambda>x. x\<lparr>windowIds := remaining\<rparr>) (instances st)\<rparr>
          in if length remaining = 0
             then (if (case getApplication (i_appId inst) st1 of
                         Some app \<Rightarrow>
                           supportsBackgroundMode (manifest_capabilities (app_manifest app)) = Some True
                       | None \<Rightarrow> False)
                   then st1
                   else terminate i (Some ''No windows remaining'') st1)
             else st1)"

text \<open>The bridge's reaction to a \<^verbatim>\<open>destroy\<close> event of the window manager
  (\<^verbatim>\<open>handleWindowDestroy\<close>); \<^verbatim>\<open>if (instanceId)\<close> skips an absent and an empty id.\<close>

definition handleWindowDestroy ::
  "string \<Rightarrow> (string \<rightharpoonup> string) \<times> app_manager \<Rightarrow> (string \<rightharpoonup> string) \<times> app_manager" where
  "handleWindowDestroy w bs =
     (case fst bs w of
        None \<Rightarrow> bs
      | Some i \<Rightarrow>
          if i = [] then bs
          else ((fst bs)(w := None), removeWindowFromInstance i w (snd bs)))"

text \<open>Instances are stored under their own ids, one entry per id.\<close>

definition instances_wf :: "app_manager \<Rightarrow> bool" where
  "instances_wf st \<longleftrightarrow>
     distinct (map fst (instances st)) \<and>
     (\<forall>k x. map_of (instances st) k = Some x \<longrightarrow> iid x = k)"

subsection \<open>Scenarios\<close>






section \<open>Input system\<close>

subsection \<open>Contexts and context filters\<close>

text \<open>\<^verbatim>\<open>input.types.ts\<close>: \<^verbatim>\<open>InputContext\<close>; every field is optional.\<close>

datatype interaction_mode = WindowMode | AppMode | SystemMode

record input_context =
  windowId :: "string option"
  appId :: "string option"
  elementType :: "string option"
  interactionMode :: "interaction_mode option"
  priority :: "int option"

text \<open>The truth value of an optional string field: absent and empty are falsy.\<close>

definition truthy :: "string option \<Rightarrow> bool" where
  "truthy s = (case s of None \<Rightarrow> False | Some v \<Rightarrow> v \<noteq> [])"

text \<open>\<^verbatim>\<open>contextMatches\<close> of \<^verbatim>\<open>createInteractionRegistry\<close>.\<close>

definition interaction_contextMatches :: "input_context \<Rightarrow> input_context option \<Rightarrow> bool" where
  "interaction_contextMatches handlerContext eventContext =
     (case eventContext of
        None \<Rightarrow> False
      | Some ec \<Rightarrow>
          if truthy (windowId handlerContext) \<and> windowId handlerContext \<noteq> windowId ec then False
          else if truthy (appId handlerContext) \<and> appId handlerContext \<noteq> appId ec then False
          else if truthy (elementType handlerContext) \<and> elementType handlerContext \<noteq> elementType ec
          then False
          else if interactionMode handlerContext \<noteq> None \<and>
                  interactionMode handlerContext \<noteq> interactionMode ec
          then False
          else True)"

text \<open>\<^verbatim>\<open>contextMatches\<close> of \<^verbatim>\<open>createKeyboardShortcutRegistry\<close>.\<close>

definition shortcut_contextMatches :: "input_context option \<Rightarrow> input_context option \<Rightarrow> bool" where
  "shortcut_contextMatches shortcutContext eventContext =
     (case shortcutContext of
        None \<Rightarrow> True
      | Some sc \<Rightarrow>
          (case eventContext of
             None \<Rightarrow> False
           | Some ec \<Rightarrow>
               if truthy (windowId sc) \<and> windowId sc \<noteq> windowId ec then False
               else if truthy (appId sc) \<and> appId sc \<noteq> appId ec then False
               else if interactionMode sc \<noteq> None \<and> interactionMode sc \<noteq> interactionMode ec
               then False
               else True))"

definition unset_context :: input_context where
  "unset_context =
     \<lparr>windowId = None, appId = None, elementType = None, interactionMode = None, priority = None\<rparr>"

subsection \<open>Events and gestures\<close>

text \<open>\<^verbatim>\<open>InputEvent\<close> and \<^verbatim>\<open>GestureEvent\<close>.  Of an input event the model keeps what the
  gesture recognizers and the context filters read; the generated ids are left out.\<close>

datatype input_event_type =
    MouseDown | MouseUp | MouseMove | MouseClick | MouseDoubleClick | MouseWheel
  | KeyDown | KeyUp | KeyPress
  | TouchStart | TouchMove | TouchEnd
  | GestureStart | GestureUpdate | GestureEnd

record input_position =
  ip_x :: real
  ip_y :: real

record input_event =
  ev_type :: input_event_type
  timestamp :: real
  ev_position :: "input_position option"
  ev_context :: "input_context option"

datatype gesture_type = Swipe | Pinch | Rotate | Tap | LongPress | Drag | Custom

datatype gesture_state = GStart | GUpdate | GEnd | GCancel

datatype gesture_datum = DNumber real | DPosition "input_position option" | DText string

record gesture_event =
  g_type :: gesture_type
  g_state :: gesture_state
  g_timestamp :: real
  g_position :: input_position
  g_data :: "(string \<times> gesture_datum) list"
  g_context :: "input_context option"

definition distance :: "input_position \<Rightarrow> input_position \<Rightarrow> real" where
  "distance p1 p2 = sqrt ((ip_x p2 - ip_x p1)\<^sup>2 + (ip_y p2 - ip_y p1)\<^sup>2)"

text \<open>\<^verbatim>\<open>Math.atan2(y, x)\<close>, and the angle of the source in degrees.\<close>

definition atan2 :: "real \<Rightarrow> real \<Rightarrow> real" where
  "atan2 b a =
     (if 0 < a then arctan (b / a)
      else if a < 0 \<and> 0 \<le> b then arctan (b / a) + pi
      else if a < 0 then arctan (b / a) - pi
      else if 0 < b then pi / 2
      else if b < 0 then - (pi / 2)
      else 0)"

definition angle :: "input_position \<Rightarrow> input_position \<Rightarrow> real" where
  "angle p1 p2 = atan2 (ip_y p2 - ip_y p1) (ip_x p2 - ip_x p1) * 180 / pi"

definition origin :: input_position where
  "origin = \<lparr>ip_x = 0, ip_y = 0\<rparr>"

definition is_press :: "input_event \<Rightarrow> bool" where
  "is_press e = (ev_type e = MouseDown \<or> ev_type e = TouchStart)"

definition is_move :: "input_event \<Rightarrow> bool" where
  "is_move e = (ev_type e = MouseMove \<or> ev_type e = TouchMove)"

definition is_release :: "input_event \<Rightarrow> bool" where
  "is_release e = (ev_type e = MouseUp \<or> ev_type e = TouchEnd)"

text \<open>\<^verbatim>\<open>lastEvent.position && startEvent.position ? distance(...) : 0\<close>.\<close>

definition distance_from :: "input_event \<Rightarrow> input_event \<Rightarrow> real" where
  "distance_from startEvent lastEvent =
     (case (ev_position lastEvent, ev_position startEvent) of
        (Some pl, Some ps) \<Rightarrow> distance ps pl
      | _ \<Rightarrow> 0)"

definition position_or_origin :: "input_event \<Rightarrow> input_position" where
  "position_or_origin e = (case ev_position e of Some p \<Rightarrow> p | None \<Rightarrow> origin)"

subsection \<open>Gesture recognizers\<close>

text \<open>Each recognizer is a function of the event window and of its private tracking
  state, which it returns updated together with the gesture, if any.\<close>

text \<open>\<^verbatim>\<open>createTapGestureRecognizer(maxDistance = 10, maxDuration = 300)\<close>; the state is
  \<^verbatim>\<open>startEvent\<close>.\<close>

definition tap_recognize ::
  "real \<Rightarrow> real \<Rightarrow> input_event list \<Rightarrow> input_event option \<Rightarrow> gesture_event option \<times> input_event option" where
  "tap_recognize maxDistance maxDuration events startEvent =
     (if events = [] then (None, startEvent)
      else
        let lastEvent = last events in
        if is_press lastEvent \<and> startEvent = None
        then (Some \<lparr>g_type = Tap, g_state = GStart, g_timestamp = timestamp lastEvent,
                     g_position = position_or_origin lastEvent, g_data = [],
                     g_context = ev_context lastEvent\<rparr>,
              Some lastEvent)
        else
          (case startEvent of
             Some se \<Rightarrow>
               if is_release lastEvent
               then
                 let duration = timestamp lastEvent - timestamp se;
                     d = distance_from se lastEvent;
                     isValidTap = (duration \<le> maxDuration \<and> d \<le> maxDistance);
                     gesture = \<lparr>g_type = Tap, g_state = (if isValidTap then GEnd else GCancel),
                                g_timestamp = timestamp lastEvent,
                                g_position = position_or_origin lastEvent,
                                g_data = [(''duration'', DNumber duration), (''distance'', DNumber d),
                                          (''startPosition'', DPosition (ev_position se))],
                                g_context = ev_context lastEvent\<rparr>
                 in (if isValidTap then Some gesture else None, None)
               else (None, startEvent)
           | None \<Rightarrow> (None, startEvent)))"

text \<open>\<^verbatim>\<open>createDragGestureRecognizer(minDistance = 10)\<close>; the state is \<^verbatim>\<open>startEvent\<close> and
  \<^verbatim>\<open>isDragging\<close>.\<close>

definition drag_recognize ::
  "real \<Rightarrow> input_event list \<Rightarrow> input_event option \<times> bool \<Rightarrow>
   gesture_event option \<times> (input_event option \<times> bool)" where
  "drag_recognize minDistance events s =
     (if events = [] then (None, s)
      else
        let lastEvent = last events; startEvent = fst s; isDragging = snd s in
        if is_press lastEvent \<and> startEvent = None
        then (None, (Some lastEvent, False))
        else
          (case startEvent of
             None \<Rightarrow> (None, s)
           | Some se \<Rightarrow>
               let d = distance_from se lastEvent in
               if is_move lastEvent \<and> \<not> isDragging \<and> minDistance \<le> d
               then (Some \<lparr>g_type = Drag, g_state = GStart, g_timestamp = timestamp lastEvent,
                            g_position = position_or_origin lastEvent,
                            g_data = [(''startPosition'', DPosition (ev_position se)),
                                      (''distance'', DNumber d)],
                            g_context = ev_context lastEvent\<rparr>,
                     (startEvent, True))
               else if is_move lastEvent \<and> isDragging
               then (Some \<lparr>g_type = Drag, g_state = GUpdate, g_timestamp = timestamp lastEvent,
                            g_position = position_or_origin lastEvent,
                            g_data = [(''startPosition'', DPosition (ev_position se)),
                                      (''distance'', DNumber d),
                                      (''deltaX'', DNumber (case (ev_position lastEvent, ev_position se) of
                                                     (Some pl, Some ps) \<Rightarrow> ip_x pl - ip_x ps | _ \<Rightarrow> 0)),
                                      (''deltaY'', DNumber (case (ev_position lastEvent, ev_position se) of
                                                     (Some pl, Some ps) \<Rightarrow> ip_y pl - ip_y ps | _ \<Rightarrow> 0))],
                            g_context = ev_context lastEvent\<rparr>,
                     s)
               else if is_release lastEvent \<and> isDragging
               then (Some \<lparr>g_type = Drag, g_state = GEnd, g_timestamp = timestamp lastEvent,
                            g_position = position_or_origin lastEvent,
                            g_data = [(''startPosition'', DPosition (ev_position se)),
                                      (''endPosition'', DPosition (ev_position lastEvent)),
                                      (''totalDistance'', DNumber d),
                                      (''duration'', DNumber (timestamp lastEvent - timestamp se))],
                            g_context = ev_context lastEvent\<rparr>,
                     (None, False))
               else (None, s)))"

text \<open>\<^verbatim>\<open>createSwipeGestureRecognizer(minDistance = 50, maxDuration = 500, minVelocity = 0.1)\<close>;
  the state is \<^verbatim>\<open>startEvent\<close>.\<close>

definition swipe_direction :: "real \<Rightarrow> string" where
  "swipe_direction swipeAngle =
     (if - 45 \<le> swipeAngle \<and> swipeAngle \<le> 45 then ''right''
      else if 45 \<le> swipeAngle \<and> swipeAngle \<le> 135 then ''down''
      else if 135 \<le> swipeAngle \<or> swipeAngle \<le> - 135 then ''left''
      else if - 135 \<le> swipeAngle \<and> swipeAngle \<le> - 45 then ''up''
      else ''unknown'')"

definition swipe_recognize ::
  "real \<Rightarrow> real \<Rightarrow> real \<Rightarrow> input_event list \<Rightarrow> input_event option \<Rightarrow>
   gesture_event option \<times> input_event option" where
  "swipe_recognize minDistance maxDuration minVelocity events startEvent =
     (if events = [] then (None, startEvent)
      else
        let lastEvent = last events in
        if is_press lastEvent \<and> startEvent = None
        then (None, Some lastEvent)
        else
          (case startEvent of
             None \<Rightarrow> (None, startEvent)
           | Some se \<Rightarrow>
               if is_release lastEvent
               then
                 let duration = timestamp lastEvent - timestamp se;
                     d = distance_from se lastEvent;
                     velocity = (if 0 < duration then d / duration else 0);
                     swipeAngle = (case (ev_position lastEvent, ev_position se) of
                                     (Some pl, Some ps) \<Rightarrow> angle ps pl | _ \<Rightarrow> 0);
                     isValidSwipe = (duration \<le> maxDuration \<and> minDistance \<le> d \<and>
                                     minVelocity \<le> velocity)
                 in if isValidSwipe
                    then (Some \<lparr>g_type = Swipe, g_state = GEnd, g_timestamp = timestamp lastEvent,
                                 g_position = position_or_origin lastEvent,
                                 g_data = [(''direction'', DText (swipe_direction swipeAngle)),
                                           (''distance'', DNumber d),
                                           (''duration'', DNumber duration),
                                           (''velocity'', DNumber velocity),
                                           (''angle'', DNumber swipeAngle),
                                           (''startPosition'', DPosition (ev_position se)),
                                           (''endPosition'', DPosition (ev_position lastEvent))],
                                 g_context = ev_context lastEvent\<rparr>,
                          None)
                    else (None, None)
               else (None, startEvent)))"

text \<open>\<^verbatim>\<open>createLongPressGestureRecognizer(duration = 500, maxDistance = 10)\<close>; the state is
  \<^verbatim>\<open>startEvent\<close>, whether the timeout is pending, and \<^verbatim>\<open>triggered\<close>.  The timeout firing
  is a step of its own.\<close>

record long_press_state =
  lp_startEvent :: "input_event option"
  lp_timeoutPending :: bool
  lp_triggered :: bool

definition lp_reset :: long_press_state where
  "lp_reset = \<lparr>lp_startEvent = None, lp_timeoutPending = False, lp_triggered = False\<rparr>"

definition longPress_timeout :: "long_press_state \<Rightarrow> long_press_state" where
  "longPress_timeout s =
     (if \<not> lp_timeoutPending s then s
      else if lp_startEvent s \<noteq> None \<and> \<not> lp_triggered s
      then s\<lparr>lp_timeoutPending := False, lp_triggered := True\<rparr>
      else s\<lparr>lp_timeoutPending := False\<rparr>)"

definition longPress_recognize ::
  "real \<Rightarrow> input_event list \<Rightarrow> long_press_state \<Rightarrow> gesture_event option \<times> long_press_state" where
  "longPress_recognize maxDistance events s =
     (if events = [] then (None, s)
      else
        let lastEvent = last events in
        if is_press lastEvent \<and> lp_startEvent s = None
        then (None, \<lparr>lp_startEvent = Some lastEvent, lp_timeoutPending = True, lp_triggered = False\<rparr>)
        else
          (case lp_startEvent s of
             None \<Rightarrow> (None, s)
           | Some se \<Rightarrow>
               if is_move lastEvent \<and> maxDistance < distance_from se lastEvent
               then (None, lp_reset)
               else if is_release lastEvent
               then ((if lp_triggered s
                      then Some \<lparr>g_type = LongPress, g_state = GEnd, g_timestamp = timestamp lastEvent,
                                 g_position = position_or_origin lastEvent,
                                 g_data = [(''duration'', DNumber (timestamp lastEvent - timestamp se)),
                                           (''startPosition'', DPosition (ev_position se))],
                                 g_context = ev_context lastEvent\<rparr>
                      else None),
                     lp_reset)
               else (None, s)))"

subsection \<open>The router\<close>

text \<open>\<^verbatim>\<open>GestureDefinition\<close>: a registered custom gesture.  Its recognizer is taken to be a
  function of the event window; its handler is an external callback.\<close>

record gesture_definition =
  gd_type :: gesture_type
  gd_recognizer :: "input_event list \<Rightarrow> gesture_event option"
  gd_context :: "input_context option"
  gd_enabled :: bool

datatype input_system_event =
    InputReceived input_event
  | GestureRecognized gesture_event
  | ContextChanged input_context input_context

text \<open>The private state of \<^verbatim>\<open>createInputSystem\<close>, with the states of the four default
  recognizers; \<open>sys_emitted\<close> is the sequence of notifications handed to the subscribers.\<close>

record input_system =
  enabled :: bool
  currentContext :: input_context
  recentEvents :: "input_event list"
  eventHistory :: "input_event list"
  tap_state :: "input_event option"
  drag_state :: "input_event option \<times> bool"
  swipe_state :: "input_event option"
  longPress_state :: long_press_state
  gestureDefinitions :: "(string \<times> gesture_definition) list"
  sys_emitted :: "input_system_event list"

definition createInputSystem :: input_system where
  "createInputSystem =
     \<lparr>enabled = True,
      currentContext = unset_context\<lparr>interactionMode := Some SystemMode\<rparr>,
      recentEvents = [], eventHistory = [],
      tap_state = None, drag_state = (None, False), swipe_state = None,
      longPress_state = lp_reset,
      gestureDefinitions = [],
      sys_emitted = []\<rparr>"

definition addToHistory :: "input_event \<Rightarrow> input_system \<Rightarrow> input_system" where
  "addToHistory e st =
     (let h = eventHistory st @ [e]; r = recentEvents st @ [e]
      in st\<lparr>recentEvents := (if 10 < length r then tl r else r),
            eventHistory := (if 100 < length h then tl h else h)\<rparr>)"

text \<open>The loop over the custom gesture definitions: a disabled definition is skipped, the
  others run their recognizer.  The definition's context filter is not read.\<close>

fun custom_gestures :: "(string \<times> gesture_definition) list \<Rightarrow> input_event list \<Rightarrow> gesture_event list" where
  "custom_gestures [] events = []"
| "custom_gestures ((k, d) # ds) events =
     (if \<not> gd_enabled d then custom_gestures ds events
      else (case gd_recognizer d events of
              Some g \<Rightarrow> g # custom_gestures ds events
            | None \<Rightarrow> custom_gestures ds events))"

definition recognizeGestures :: "input_event list \<Rightarrow> input_system \<Rightarrow> gesture_event list \<times> input_system" where
  "recognizeGestures events st =
     (let (tg, ts) = tap_recognize 10 300 events (tap_state st);
          (dg, ds) = drag_recognize 10 events (drag_state st);
          (sg, ss) = swipe_recognize 50 500 (1 / 10) events (swipe_state st);
          (lg, ls) = longPress_recognize 10 events (longPress_state st)
      in (List.map_filter id [tg, dg, sg, lg] @ custom_gestures (gestureDefinitions st) events,
          st\<lparr>tap_state := ts, drag_state := ds, swipe_state := ss, longPress_state := ls\<rparr>))"

text \<open>\<^verbatim>\<open>processEvent\<close>: the state after the call.  The boolean the call returns is decided by
  the shortcut and interaction handlers, which are external callbacks and emit no
  notification; they are not part of this model.\<close>

definition processEvent :: "input_event \<Rightarrow> input_system \<Rightarrow> input_system" where
  "processEvent e st =
     (if \<not> enabled st then st
      else
        let st1 = addToHistory e st;
            st2 = st1\<lparr>sys_emitted := sys_emitted st1 @ [InputReceived e]\<rparr>;
            (gestures, st3) = recognizeGestures (recentEvents st2) st2
        in st3\<lparr>sys_emitted := sys_emitted st3 @ map GestureRecognized gestures\<rparr>)"

definition registerGesture :: "string \<Rightarrow> gesture_definition \<Rightarrow> input_system \<Rightarrow> input_system" where
  "registerGesture k d st = st\<lparr>gestureDefinitions := AList.update k d (gestureDefinitions st)\<rparr>"

text \<open>The gestures among the notifications, by type and state.\<close>

definition gestures_emitted :: "input_system \<Rightarrow> (gesture_type \<times> gesture_state) list" where
  "gestures_emitted st =
     List.map_filter
       (\<lambda>n. case n of GestureRecognized g \<Rightarrow> Some (g_type g, g_state g) | _ \<Rightarrow> None)
       (sys_emitted st)"

subsection \<open>Scenarios\<close>

definition pointer :: "input_event_type \<Rightarrow> real \<Rightarrow> real \<Rightarrow> real \<Rightarrow> input_event" where
  "pointer t a b time =
     \<lparr>ev_type = t, timestamp = time, ev_position = Some \<lparr>ip_x = a, ip_y = b\<rparr>,
      ev_context = Some (unset_context\<lparr>interactionMode := Some SystemMode\<rparr>)\<rparr>"

text \<open>Press at (0,0), release at (3,3) 120 time units later.\<close>

definition tap_scenario :: input_system where
  "tap_scenario =
     processEvent (pointer MouseUp 3 3 1120)
       (processEvent (pointer MouseDown 0 0 1000) createInputSystem)"

text \<open>Press at (0,0), move to (20,0), release at (20,0) 200 time units after the press.\<close>

definition drag_scenario :: input_system where
  "drag_scenario =
     processEvent (pointer MouseUp 20 0 1200)
       (processEvent (pointer MouseMove 20 0 1100)
          (processEvent (pointer MouseDown 0 0 1000) createInputSystem))"

section \<open>JSON: printing and parsing back\<close>


declare show_nat.simps [simp del]

lemma of_char_digit_char: "d < 10 \<Longrightarrow> (of_char (digit_char d) :: nat) = 48 + d"
  by (simp add: digit_char_def)

lemma is_digit_digit_char: "d < 10 \<Longrightarrow> is_digit (digit_char d)"
  by (simp add: is_digit_def of_char_digit_char)

lemma show_nat_digits: "c \<in> set (show_nat n) \<Longrightarrow> is_digit c"
proof (induction n arbitrary: c rule: show_nat.induct)
  case (1 n)
  show ?case
  proof (cases "n < 10")
    case True
    with "1.prems" show ?thesis by (simp add: show_nat.simps [of n] is_digit_digit_char)
  next
    case False
    with "1.prems" "1.IH" show ?thesis
      by (auto simp: show_nat.simps [of n] is_digit_digit_char)
  qed
qed

lemma show_nat_nonempty: "show_nat n \<noteq> []"
  by (subst show_nat.simps) simp

lemma digits_val_snoc: "digits_val (ds @ [c]) = 10 * digits_val ds + ((of_char c :: nat) - 48)"
  by (simp add: digits_val_def)

lemma digits_val_show_nat: "digits_val (show_nat n) = n"
proof (induction n rule: show_nat.induct)
  case (1 n)
  show ?case
  proof (cases "n < 10")
    case True
    then show ?thesis by (simp add: show_nat.simps [of n] digits_val_def of_char_digit_char)
  next
    case False
    with "1.IH" show ?thesis
      by (simp add: show_nat.simps [of n] digits_val_snoc of_char_digit_char)
  qed
qed

lemma hd_show_nat: "0 < n \<Longrightarrow> hd (show_nat n) \<noteq> CHR ''0''"
proof (induction n rule: show_nat.induct)
  case (1 n)
  show ?case
  proof (cases "n < 10")
    case True
    have "(of_char (digit_char n) :: nat) \<noteq> of_char (CHR ''0'')"
      using True "1.prems" by (simp add: of_char_digit_char)
    then have "digit_char n \<noteq> CHR ''0''" by metis
    with True show ?thesis by (simp add: show_nat.simps [of n])
  next
    case False
    then have "0 < n div 10" by simp
    with "1.IH" False have "hd (show_nat (n div 10)) \<noteq> CHR ''0''" by simp
    with False show ?thesis by (simp add: show_nat.simps [of n] show_nat_nonempty)
  qed
qed

lemma char_of_48: "char_of (48 :: nat) = CHR ''0''"
proof -
  have "(of_char (CHR ''0'') :: nat) = 48" by simp
  then show ?thesis by (metis char_of_char)
qed

lemma show_nat_0: "show_nat 0 = ''0''"
  by (simp add: show_nat.simps [of 0] digit_char_def char_of_48)

lemma not_digit_delimiter: "at_delimiter rest \<Longrightarrow> takeWhile is_digit rest = [] \<and> dropWhile is_digit rest = rest"
  by (cases rest) (auto simp: at_delimiter_def is_digit_def)

lemma takeWhile_show_nat:
  "at_delimiter rest \<Longrightarrow> takeWhile is_digit (show_nat n @ rest) = show_nat n"
  by (simp add: takeWhile_append2 show_nat_digits not_digit_delimiter)

lemma dropWhile_show_nat:
  "at_delimiter rest \<Longrightarrow> dropWhile is_digit (show_nat n @ rest) = rest"
  by (simp add: dropWhile_append2 show_nat_digits not_digit_delimiter)

lemma parse_frac_delimiter: "at_delimiter rest \<Longrightarrow> parse_frac rest = Some ([], rest)"
  by (cases rest) (auto simp: parse_frac_def at_delimiter_def)

lemma parse_exp_delimiter: "at_delimiter rest \<Longrightarrow> parse_exp rest = Some (0, rest)"
  by (cases rest) (auto simp: parse_exp_def at_delimiter_def)

lemma parse_magnitude_show_nat:
  assumes "at_delimiter rest"
  shows "parse_magnitude neg (show_nat n @ rest) = Some ((if neg then - 1 else 1) * of_nat n, rest)"
proof (cases "n = 0")
  case True
  then show ?thesis using assms
    by (simp add: parse_magnitude_def show_nat_0 is_digit_def parse_frac_delimiter
          parse_exp_delimiter scale10_def digits_val_def)
next
  case False
  obtain c r where cr: "show_nat n = c # r" using show_nat_nonempty [of n] by (cases "show_nat n") auto
  with hd_show_nat [of n] False have c0: "c \<noteq> CHR ''0''" by simp
  from cr show_nat_digits [of c n] have cd: "is_digit c" by simp
  have tw: "takeWhile is_digit (c # r @ rest) = c # r" "dropWhile is_digit (c # r @ rest) = rest"
    using takeWhile_show_nat [OF assms, of n] dropWhile_show_nat [OF assms, of n] cr by simp_all
  have dv: "digits_val (c # r) = n" using digits_val_show_nat [of n] cr by simp
  show ?thesis
    unfolding parse_magnitude_def cr
    using assms c0 cd
    apply (simp only: append_Cons list.case if_False not_not if_True)
    apply (simp only: tw parse_frac_delimiter option.case prod.case parse_exp_delimiter dv)
    apply (simp add: scale10_def digits_val_def)
    done
qed

lemma parse_number_show_int:
  assumes "at_delimiter rest"
  shows "parse_number (show_int i @ rest) = Some (of_int i, rest)"
proof (cases "i < 0")
  case True
  then show ?thesis
    by (simp add: show_int_def parse_number_def parse_magnitude_show_nat [OF assms])
next
  case False
  obtain c r where cr: "show_nat (nat i) = c # r"
    using show_nat_nonempty [of "nat i"] by (cases "show_nat (nat i)") auto
  from cr show_nat_digits [of c "nat i"] have "is_digit c" by simp
  then have cm: "c \<noteq> CHR ''-''" by (auto simp: is_digit_def)
  have "parse_number (show_nat (nat i) @ rest) = parse_magnitude False (show_nat (nat i) @ rest)"
    using cm by (simp add: parse_number_def cr)
  with False show ?thesis
    by (simp add: show_int_def parse_magnitude_show_nat [OF assms])
qed



lemma hex_val_hex_char: "d < 16 \<Longrightarrow> hex_val (hex_char d) = Some d"
  by (auto simp: hex_val_def hex_char_def Let_def)

lemma hex_val_0: "hex_val (CHR ''0'') = Some 0"
  by (simp add: hex_val_def)

lemma char_neq_of_char: "(of_char c :: nat) \<noteq> of_char d \<Longrightarrow> c \<noteq> d"
  by auto

lemma parse_chars_control:
  assumes "(of_char c :: nat) < 32" and r: "parse_chars t = Some (s, rest)"
  shows "parse_chars (CHR 0x5C # CHR ''u'' # CHR ''0'' # CHR ''0'' #
            hex_char ((of_char c :: nat) div 16) # hex_char ((of_char c :: nat) mod 16) # t) = Some (c # s, rest)"
proof -
  let ?n = "of_char c :: nat"
  have h1: "hex_val (hex_char (?n div 16)) = Some (?n div 16)"
    using assms(1) by (intro hex_val_hex_char) simp
  have h2: "hex_val (hex_char (?n mod 16)) = Some (?n mod 16)"
    by (intro hex_val_hex_char) simp
  have v: "((0 * 16 + 0) * 16 + ?n div 16) * 16 + ?n mod 16 = ?n" by simp
  have u: "utf8_encode ?n = [c]" using assms(1) by (simp add: utf8_encode_def)
  show ?thesis
    by (simp add: hex_val_0 h1 h2 r u del: mult_0 add_0)
qed

lemma parse_chars_escape:
  assumes r: "parse_chars t = Some (s, rest)"
  shows "parse_chars (escape_char c @ t) = Some (c # s, rest)"
proof -
  consider "c = CHR 0x22" | "c = CHR 0x5C" | "c = CHR 0x08" | "c = CHR 0x0C" | "c = CHR 0x0A"
    | "c = CHR 0x0D" | "c = CHR 0x09"
    | "c \<noteq> CHR 0x22" "c \<noteq> CHR 0x5C" "c \<noteq> CHR 0x08" "c \<noteq> CHR 0x0C" "c \<noteq> CHR 0x0A"
      "c \<noteq> CHR 0x0D" "c \<noteq> CHR 0x09" "(of_char c :: nat) < 32"
    | "c \<noteq> CHR 0x22" "c \<noteq> CHR 0x5C" "c \<noteq> CHR 0x08" "c \<noteq> CHR 0x0C" "c \<noteq> CHR 0x0A"
      "c \<noteq> CHR 0x0D" "c \<noteq> CHR 0x09" "\<not> (of_char c :: nat) < 32"
    by (cases "(of_char c :: nat) < 32") auto
  then show ?thesis
  proof cases
    case 8
    then show ?thesis
      using parse_chars_control [OF 8(8) r] by (simp add: escape_char_def)
  next
    case 9
    then show ?thesis using r by (simp add: escape_char_def)
  qed (simp_all add: escape_char_def unescape_def r)
qed

lemma parse_chars_quote_body:
  "parse_chars (concat (map escape_char s) @ CHR 0x22 # rest) = Some (s, rest)"
proof (induction s)
  case Nil
  show ?case by simp
next
  case (Cons c s)
  from parse_chars_escape [OF Cons.IH, of c] show ?case by simp
qed

lemma parse_quote: "quote s @ rest = CHR 0x22 # t \<Longrightarrow> parse_chars t = Some (s, rest)"
  using parse_chars_quote_body [of s rest] by (simp add: quote_def)



lemma skip_ws_Cons: "\<not> is_ws c \<Longrightarrow> skip_ws (c # s) = c # s"
  by (simp add: skip_ws_def)

lemma skip_ws_Nil [simp]: "skip_ws [] = []"
  by (simp add: skip_ws_def)

lemma not_ws_simps [simp]:
  "\<not> is_ws (CHR '','')" "\<not> is_ws (CHR '']'')" "\<not> is_ws (CHR ''}'')" "\<not> is_ws (CHR '':'')"
  "\<not> is_ws (CHR 0x22)" "\<not> is_ws (CHR ''['')" "\<not> is_ws (CHR ''{'')" "\<not> is_ws (CHR ''n'')"
  "\<not> is_ws (CHR ''t'')" "\<not> is_ws (CHR ''f'')" "\<not> is_ws (CHR ''-'')"
  by (simp_all add: is_ws_def)

lemma digit_not_ws: "is_digit c \<Longrightarrow> \<not> is_ws c"
  by (auto simp: is_digit_def is_ws_def)

lemma skip_ws_delimiter: "at_delimiter rest \<Longrightarrow> skip_ws rest = rest"
  by (cases rest) (auto simp: at_delimiter_def skip_ws_def is_ws_def)

text \<open>The first character of a printed value.\<close>

lemma value_start_props:
  "value_start c \<Longrightarrow> \<not> is_ws c \<and> c \<noteq> CHR '']'' \<and> c \<noteq> CHR ''}''"
  by (auto simp: value_start_def is_digit_def is_ws_def)

lemma show_int_start: "\<exists>c r. show_int i = c # r \<and> (c = CHR ''-'' \<or> is_digit c)"
proof (cases "i < 0")
  case True
  then show ?thesis by (simp add: show_int_def)
next
  case False
  obtain c r where cr: "show_nat (nat i) = c # r"
    using show_nat_nonempty [of "nat i"] by (cases "show_nat (nat i)") auto
  with show_nat_digits [of c "nat i"] False show ?thesis by (simp add: show_int_def)
qed

lemma stringify_start:
  "stringify v = Some s \<Longrightarrow> \<exists>c r. s = c # r \<and> value_start c"
proof (cases v)
  case (JNum i)
  assume "stringify v = Some s"
  with JNum show_int_start [of i] show ?thesis by (auto simp: value_start_def)
qed (auto simp: value_start_def quote_def)

lemma element_start:
  "\<exists>c r. (case stringify x of Some s \<Rightarrow> s | None \<Rightarrow> ''null'') = c # r \<and> value_start c"
proof (cases "stringify x")
  case None
  then show ?thesis by (simp add: value_start_def)
next
  case (Some s)
  with stringify_start [OF Some] show ?thesis by simp
qed

lemma pv_null: "parse_value (Suc m) (''null'' @ rest) = Some (JNull, rest)"
  by simp

lemma pv_true: "parse_value (Suc m) (''true'' @ rest) = Some (JBool True, rest)"
  by simp

lemma pv_false: "parse_value (Suc m) (''false'' @ rest) = Some (JBool False, rest)"
  by simp

lemma pv_str: "parse_value (Suc m) (quote s @ rest) = Some (JStr s, rest)"
  using parse_chars_quote_body [of s rest] by (simp add: quote_def)

lemma pv_num:
  assumes "at_delimiter rest"
  shows "parse_value (Suc m) (show_int i @ rest) = Some (JNum (of_int i), rest)"
proof -
  from show_int_start [of i] obtain c r where cr: "show_int i = c # r" "c = CHR ''-'' \<or> is_digit c"
    by blast
  from cr(2) have ne: "c \<noteq> CHR 0x22" "c \<noteq> CHR ''[''" "c \<noteq> CHR ''{''" "c \<noteq> CHR ''t''"
    "c \<noteq> CHR ''f''" "c \<noteq> CHR ''n''"
    by (auto simp: is_digit_def)
  have t: "take 4 (c # r @ rest) \<noteq> ''true''" "take 5 (c # r @ rest) \<noteq> ''false''"
    "take 4 (c # r @ rest) \<noteq> ''null''"
    using ne by (auto simp: take_Cons')
  have "parse_value (Suc m) (c # r @ rest) =
        (case parse_number (c # r @ rest) of Some (q, r) \<Rightarrow> Some (JNum q, r) | None \<Rightarrow> None)"
    using ne t by (simp del: take_Suc_Cons)
  then show ?thesis
    using parse_number_show_int [OF assms, of i] cr(1) by simp
qed

lemma pv_arr_empty: "parse_value (Suc m) (''[]'' @ rest) = Some (JArr [], rest)"
  by (simp add: skip_ws_Cons)

lemma pv_obj_empty: "parse_value (Suc m) (''{}'' @ rest) = Some (JObj [], rest)"
  by (simp add: skip_ws_Cons)

lemma pv_arr:
  assumes "value_start c" "parse_elements m (c # t) = Some (xs, rest)"
  shows "parse_value (Suc m) (CHR ''['' # c # t) = Some (JArr xs, rest)"
  using assms value_start_props [OF assms(1)] by (simp add: skip_ws_Cons)

lemma pv_obj:
  assumes "parse_members m (CHR 0x22 # t) = Some (ms, rest)"
  shows "parse_value (Suc m) (CHR ''{'' # CHR 0x22 # t) = Some (JObj ms, rest)"
  using assms by (simp add: skip_ws_Cons)

lemma pe_last:
  assumes "parse_value m s = Some (v, CHR '']'' # rest)"
  shows "parse_elements (Suc m) s = Some ([v], rest)"
  using assms by (simp add: skip_ws_Cons)

lemma pe_more:
  assumes "parse_value m s = Some (v, CHR '','' # c # t)" "value_start c"
    "parse_elements m (c # t) = Some (vs, rest)"
  shows "parse_elements (Suc m) s = Some (v # vs, rest)"
  using assms value_start_props [OF assms(2)] by (simp add: skip_ws_Cons)

lemma pm_last:
  assumes "value_start c" "parse_value m (c # t) = Some (v, CHR ''}'' # rest)"
  shows "parse_members (Suc m) (quote k @ CHR '':'' # c # t) = Some ([(k, v)], rest)"
  using assms value_start_props [OF assms(1)] parse_chars_quote_body [of k "CHR '':'' # c # t"]
  by (simp add: skip_ws_Cons quote_def)

lemma pm_more:
  assumes "value_start c" "parse_value m (c # t) = Some (v, CHR '','' # CHR 0x22 # u)"
    "parse_members m (CHR 0x22 # u) = Some (ms, rest)"
  shows "parse_members (Suc m) (quote k @ CHR '':'' # c # t) = Some ((k, v) # ms, rest)"
  using assms value_start_props [OF assms(1)] parse_chars_quote_body [of k "CHR '':'' # c # t"]
  by (simp add: skip_ws_Cons quote_def)



declare parse_value.simps [simp del] parse_elements.simps [simp del] parse_members.simps [simp del]

lemma join_with_Cons: "ts \<noteq> [] \<Longrightarrow> join_with sep (t # ts) = t @ sep @ join_with sep ts"
  by (cases ts) simp_all

lemma stringify_elements_Nil: "(stringify_elements xs = []) = (xs = [])"
  by (cases xs) simp_all

lemma stringify_None: "(stringify v = None) = (v = JUndefined)"
  by (cases v) simp_all

lemma no_members: "stringify_members ms = [] \<Longrightarrow> reparsed_members ms = []"
proof (induction ms)
  case Nil
  show ?case by simp
next
  case (Cons a ms)
  obtain k v where a: "a = (k, v)" by (cases a)
  with Cons show ?case by (cases "stringify v") (simp_all add: stringify_None)
qed

lemma elements_start:
  "xs \<noteq> [] \<Longrightarrow> \<exists>c r. join_with '','' (stringify_elements xs) = c # r \<and> value_start c"
proof (cases xs)
  case Nil
  assume "xs \<noteq> []" with Nil show ?thesis by simp
next
  case (Cons x ys)
  from element_start [of x] obtain c r where
    e: "(case stringify x of Some s \<Rightarrow> s | None \<Rightarrow> ''null'') = c # r" "value_start c" by blast
  show ?thesis
  proof (cases ys)
    case Nil
    with Cons e show ?thesis by simp
  next
    case (Cons y zs)
    with \<open>xs = x # ys\<close> e show ?thesis by simp
  qed
qed

lemma members_start:
  "stringify_members ms \<noteq> [] \<Longrightarrow> \<exists>r. join_with '','' (stringify_members ms) = CHR 0x22 # r"
proof -
  assume "stringify_members ms \<noteq> []"
  then obtain e es where es: "stringify_members ms = e # es" by (cases "stringify_members ms") auto
  have "\<exists>r. e = CHR 0x22 # r" using es
  proof (induction ms)
    case Nil then show ?case by simp
  next
    case (Cons a ms)
    obtain k v where a: "a = (k, v)" by (cases a)
    with Cons show ?case by (cases "stringify v") (auto simp: quote_def)
  qed
  with es show ?thesis by (cases es) auto
qed

lemma at_delimiter_simps [simp]:
  "at_delimiter (CHR '','' # s)" "at_delimiter (CHR '']'' # s)" "at_delimiter (CHR ''}'' # s)"
  "at_delimiter []"
  by (simp_all add: at_delimiter_def)

lemma parse_printed:
  "\<forall>s n rest. stringify v = Some s \<longrightarrow> length s \<le> n \<longrightarrow> at_delimiter rest \<longrightarrow>
       parse_value n (s @ rest) = Some (reparsed v, rest)"
  "\<forall>n rest. xs \<noteq> [] \<longrightarrow> length (join_with '','' (stringify_elements xs)) < n \<longrightarrow>
       parse_elements n (join_with '','' (stringify_elements xs) @ CHR '']'' # rest) =
         Some (reparsed_elements xs, rest)"
  "\<forall>n rest. stringify_members ms \<noteq> [] \<longrightarrow> length (join_with '','' (stringify_members ms)) < n \<longrightarrow>
       parse_members n (join_with '','' (stringify_members ms) @ CHR ''}'' # rest) =
         Some (reparsed_members ms, rest)"
proof (induction v and xs and ms rule: stringify_stringify_elements_stringify_members.induct)
  case 1
  show ?case by simp
next
  case 2
  show ?case
  proof (intro allI impI)
    fix s n rest assume "stringify JNull = Some s" "length s \<le> n"
    then obtain m where "n = Suc m" "s = ''null''" by (cases n) auto
    then show "parse_value n (s @ rest) = Some (reparsed JNull, rest)" using pv_null by simp
  qed
next
  case (3 b)
  show ?case
  proof (intro allI impI)
    fix s n rest assume "stringify (JBool b) = Some s" "length s \<le> n"
    then obtain m where "n = Suc m" "s = (if b then ''true'' else ''false'')"
      by (cases b; cases n) auto
    then show "parse_value n (s @ rest) = Some (reparsed (JBool b), rest)"
      using pv_true [of m rest] pv_false [of m rest] by (cases b) simp_all
  qed
next
  case (4 i)
  show ?case
  proof (intro allI impI)
    fix s n rest assume a: "stringify (JNum i) = Some s" "length s \<le> n" "at_delimiter rest"
    from show_int_start [of i] a(1) have "s \<noteq> []" by auto
    with a obtain m where "n = Suc m" "s = show_int i" by (cases n) auto
    then show "parse_value n (s @ rest) = Some (reparsed (JNum i), rest)"
      using pv_num [OF a(3), of m i] by simp
  qed
next
  case (5 str)
  show ?case
  proof (intro allI impI)
    fix s n rest assume a: "stringify (JStr str) = Some s" "length s \<le> n"
    then obtain m where "n = Suc m" "s = quote str" by (cases n) (auto simp: quote_def)
    then show "parse_value n (s @ rest) = Some (reparsed (JStr str), rest)"
      using pv_str [of m str rest] by simp
  qed
next
  case (6 xs)
  show ?case
  proof (intro allI impI)
    fix s n rest assume a: "stringify (JArr xs) = Some s" "length s \<le> n"
    let ?body = "join_with '','' (stringify_elements xs)"
    from a have s: "s = CHR ''['' # ?body @ '']''" by simp
    with a obtain m where n: "n = Suc m" by (cases n) auto
    show "parse_value n (s @ rest) = Some (reparsed (JArr xs), rest)"
    proof (cases "xs = []")
      case True
      with s n show ?thesis using pv_arr_empty [of m rest] by simp
    next
      case False
      from elements_start [OF False] obtain c r where cr: "?body = c # r" "value_start c" by blast
      from a s n have "length ?body < m" by simp
      with 6 False have "parse_elements m (?body @ CHR '']'' # rest) = Some (reparsed_elements xs, rest)"
        by blast
      with cr have "parse_elements m (c # r @ CHR '']'' # rest) = Some (reparsed_elements xs, rest)"
        by simp
      from pv_arr [OF cr(2) this] show ?thesis by (simp add: s n cr(1))
    qed
  qed
next
  case (7 ms)
  show ?case
  proof (intro allI impI)
    fix s n rest assume a: "stringify (JObj ms) = Some s" "length s \<le> n"
    let ?body = "join_with '','' (stringify_members ms)"
    from a have s: "s = CHR ''{'' # ?body @ ''}''" by simp
    with a obtain m where n: "n = Suc m" by (cases n) auto
    show "parse_value n (s @ rest) = Some (reparsed (JObj ms), rest)"
    proof (cases "stringify_members ms = []")
      case True
      with s n no_members [OF True] show ?thesis using pv_obj_empty [of m rest] by simp
    next
      case False
      from members_start [OF False] obtain r where cr: "?body = CHR 0x22 # r" by blast
      from a s n have "length ?body < m" by simp
      with 7 False have "parse_members m (?body @ CHR ''}'' # rest) = Some (reparsed_members ms, rest)"
        by blast
      with cr have "parse_members m (CHR 0x22 # r @ CHR ''}'' # rest) = Some (reparsed_members ms, rest)"
        by simp
      from pv_obj [OF this] show ?thesis by (simp add: s n cr)
    qed
  qed
next
  case 8
  show ?case by simp
next
  case (9 x xs)
  let ?e = "case stringify x of Some s \<Rightarrow> s | None \<Rightarrow> ''null''"
  have elem: "parse_value m (?e @ rest') = Some (reparsed x, rest')"
    if "length ?e \<le> m" "at_delimiter rest'" for m rest'
  proof (cases "stringify x")
    case None
    then have x: "x = JUndefined" by (simp add: stringify_None)
    from that None obtain m' where "m = Suc m'" by (cases m) auto
    with None x show ?thesis using pv_null [of m' rest'] by simp
  next
    case (Some s)
    with "9.IH"(1) that show ?thesis by simp
  qed
  show ?case
  proof (intro allI impI)
    fix n rest
    assume len: "length (join_with '','' (stringify_elements (x # xs))) < n"
    then obtain m where n: "n = Suc m" by (cases n) auto
    show "parse_elements n (join_with '','' (stringify_elements (x # xs)) @ CHR '']'' # rest) =
            Some (reparsed_elements (x # xs), rest)"
    proof (cases "xs = []")
      case True
      with len n have "length ?e \<le> m" by simp
      from elem [OF this, of "CHR '']'' # rest"]
      have "parse_value m (?e @ CHR '']'' # rest) = Some (reparsed x, CHR '']'' # rest)" by simp
      from pe_last [OF this] True n show ?thesis by simp
    next
      case False
      let ?body = "join_with '','' (stringify_elements xs)"
      from False obtain y ys where xs: "xs = y # ys" by (cases xs) auto
      have j: "join_with '','' (?e # stringify_elements xs) = ?e @ '','' @ ?body"
        using False by (simp add: join_with_Cons stringify_elements_Nil)
      from elements_start [OF False] obtain c r where cr: "?body = c # r" "value_start c" by blast
      from len n j have l1: "length ?e \<le> m" and l2: "length ?body < m" by simp_all
      from elem [OF l1, of "CHR '','' # ?body @ CHR '']'' # rest"]
      have 1: "parse_value m (?e @ CHR '','' # ?body @ CHR '']'' # rest) =
                 Some (reparsed x, CHR '','' # c # r @ CHR '']'' # rest)"
        by (simp add: cr(1))
      from "9.IH"(2) False l2
      have "parse_elements m (?body @ CHR '']'' # rest) = Some (reparsed_elements xs, rest)" by blast
      then have 2: "parse_elements m (c # r @ CHR '']'' # rest) = Some (reparsed_elements xs, rest)"
        by (simp add: cr(1))
      from pe_more [OF 1 cr(2) 2] show ?thesis
        using False by (simp add: join_with_Cons stringify_elements_Nil n)
    qed
  qed
next
  case 10
  show ?case by simp
next
  case (11 k v ms)
  show ?case
  proof (cases "stringify v")
    case None
    then have v: "v = JUndefined" by (simp add: stringify_None)
    from "11.IH"(2) [OF None] None v show ?thesis by simp
  next
    case (Some s)
    then have v: "v \<noteq> JUndefined" using stringify_None [of v] by simp
    note IHms = "11.IH"(3) [OF Some]
    from stringify_start [OF Some] obtain c t where ct: "s = c # t" "value_start c" by blast
    show ?thesis
    proof (intro allI impI)
      fix n rest
      assume len: "length (join_with '','' (stringify_members ((k, v) # ms))) < n"
      then obtain m where n: "n = Suc m" by (cases n) auto
      let ?body = "join_with '','' (stringify_members ms)"
      show "parse_members n (join_with '','' (stringify_members ((k, v) # ms)) @ CHR ''}'' # rest) =
              Some (reparsed_members ((k, v) # ms), rest)"
      proof (cases "stringify_members ms = []")
        case True
        have j: "join_with '','' ((quote k @ '':'' @ s) # stringify_members ms) = quote k @ '':'' @ s"
          by (simp add: True)
        from len n j Some have "length s \<le> m" by simp
        with "11.IH"(1) Some have "parse_value m (s @ CHR ''}'' # rest) = Some (reparsed v, CHR ''}'' # rest)"
          by simp
        then have "parse_value m (c # t @ CHR ''}'' # rest) = Some (reparsed v, CHR ''}'' # rest)"
          by (simp add: ct(1))
        from pm_last [OF ct(2) this, of k] show ?thesis
          by (simp add: Some True n ct(1) v no_members [OF True])
      next
        case False
        from False obtain e es where es: "stringify_members ms = e # es"
          by (cases "stringify_members ms") auto
        have j: "join_with '','' ((quote k @ '':'' @ s) # stringify_members ms) =
                   quote k @ '':'' @ s @ '','' @ ?body"
          using False by (simp add: join_with_Cons)
        from members_start [OF False] obtain u where u: "?body = CHR 0x22 # u" by blast
        from len n j Some have l1: "length s \<le> m" and l2: "length ?body < m" by simp_all
        from "11.IH"(1) Some l1
        have "parse_value m (s @ CHR '','' # ?body @ CHR ''}'' # rest) =
                Some (reparsed v, CHR '','' # ?body @ CHR ''}'' # rest)"
          by simp
        then have 1: "parse_value m (c # t @ CHR '','' # CHR 0x22 # u @ CHR ''}'' # rest) =
                Some (reparsed v, CHR '','' # CHR 0x22 # u @ CHR ''}'' # rest)"
          by (simp add: ct(1) u)
        from IHms False l2
        have "parse_members m (?body @ CHR ''}'' # rest) = Some (reparsed_members ms, rest)" by blast
        then have 2: "parse_members m (CHR 0x22 # u @ CHR ''}'' # rest) = Some (reparsed_members ms, rest)"
          by (simp add: u)
        from pm_more [OF ct(2) 1 2, of k] show ?thesis
          using False by (simp add: Some join_with_Cons n ct(1) v u)
      qed
    qed
  qed
qed

lemma JSON_roundtrip:
  assumes "stringify v = Some s"
  shows "JSON_parse s = Some (reparsed v)"
proof -
  from stringify_start [OF assms] obtain c r where cr: "s = c # r" "value_start c" by blast
  then have "skip_ws s = s" using value_start_props [of c] by (simp add: skip_ws_Cons)
  moreover have "parse_value (Suc (length s)) (s @ []) = Some (reparsed v, [])"
    by (rule parse_printed(1) [rule_format, OF assms]) simp_all
  ultimately show ?thesis by (simp add: JSON_parse_def)
qed


section \<open>Window manager: the registry stays well formed\<close>

lemmas wm_defs = emit_def modify_def updateZIndices_def bringToFront_def getTopmostWindow_def


lemma erase_map_entry:
  "(\<And>w. e (f w) = e w) \<Longrightarrow> map (apsnd e) (AList.map_entry k f al) = map (apsnd e) al"
  by (induction al) auto

lemma map_of_erase: "map_of (map (apsnd e) al) k = map_option e (map_of al k)"
  by (induction al) auto

lemma erase_keys:
  assumes "map (apsnd e) al' = map (apsnd e) al"
  shows "map fst al' = map fst al"
proof -
  from assms have "map fst (map (apsnd e) al') = map fst (map (apsnd e) al)" by simp
  then show ?thesis by (simp add: comp_def)
qed

lemma map_of_keys: "map_of al k \<noteq> None \<Longrightarrow> k \<in> set (map fst al)"
  by (metis map_of_eq_None_iff set_map)

lemma update_fresh: "map_of al k = None \<Longrightarrow> AList.update k v al = al @ [(k, v)]"
  by (induction al) (auto split: if_splits)

lemma ids_updateZIndices_from:
  "map (apsnd wid) (updateZIndices_from i ks ws) = map (apsnd wid) ws"
  by (induction ks arbitrary: i ws) (auto simp: erase_map_entry)

lemma focusWindow_ids: "map (apsnd wid) (windows (focusWindow k m)) = map (apsnd wid) (windows m)"
  by (simp add: focusWindow_def wm_defs Let_def erase_map_entry ids_updateZIndices_from
       split: option.splits)

lemma focusWindow_constraints_same: "windowConstraints (focusWindow k m) = windowConstraints m"
  by (simp add: focusWindow_def wm_defs Let_def split: option.splits)

lemma focusWindow_pending: "pending (focusWindow k m) = pending m"
  by (simp add: focusWindow_def wm_defs Let_def split: option.splits)

lemma focusWindow_order:
  "windowOrder (focusWindow k m) = windowOrder m \<or>
   (map_of (windows m) k \<noteq> None \<and>
    windowOrder (focusWindow k m) = filter (\<lambda>w. w \<noteq> k) (windowOrder m) @ [k])"
  by (simp add: focusWindow_def wm_defs Let_def map_of_map_entry split: option.splits)

lemma well_formed_transfer:
  assumes "well_formed m"
    and ids: "map (apsnd wid) (windows m') = map (apsnd wid) (windows m)"
    and cs: "windowConstraints m' = windowConstraints m"
    and ord: "windowOrder m' = windowOrder m \<or>
              (\<exists>k \<in> set (map fst (windows m)).
                 windowOrder m' = filter (\<lambda>w. w \<noteq> k) (windowOrder m) @ [k])"
  shows "well_formed m'"
proof -
  have keys: "map fst (windows m') = map fst (windows m)" by (rule erase_keys [OF ids])
  have wids: "map_option wid (map_of (windows m') k) = map_option wid (map_of (windows m) k)" for k
    using ids by (metis map_of_erase)
  have w: "\<forall>k w. map_of (windows m') k = Some w \<longrightarrow> wid w = k"
  proof (intro allI impI)
    fix k w assume a: "map_of (windows m') k = Some w"
    with wids [of k] obtain w0 where "map_of (windows m) k = Some w0" "wid w0 = wid w"
      by (cases "map_of (windows m) k") auto
    with \<open>well_formed m\<close> show "wid w = k" by (auto simp: well_formed_def)
  qed
  from ord have o: "distinct (windowOrder m') \<and> set (windowOrder m') = set (map fst (windows m))"
  proof
    assume "windowOrder m' = windowOrder m"
    with \<open>well_formed m\<close> show ?thesis by (simp add: well_formed_def)
  next
    assume "\<exists>k \<in> set (map fst (windows m)).
              windowOrder m' = filter (\<lambda>w. w \<noteq> k) (windowOrder m) @ [k]"
    then obtain k where k: "k \<in> set (map fst (windows m))"
      "windowOrder m' = filter (\<lambda>w. w \<noteq> k) (windowOrder m) @ [k]" by blast
    with \<open>well_formed m\<close> show ?thesis by (auto simp: well_formed_def)
  qed
  with \<open>well_formed m\<close> keys cs w show ?thesis by (simp add: well_formed_def)
qed

lemma well_formed_focusWindow: "well_formed m \<Longrightarrow> well_formed (focusWindow k m)"
  apply (erule well_formed_transfer [OF _ focusWindow_ids focusWindow_constraints_same])
  using focusWindow_order [of k m] map_of_keys [of "windows m" k] by auto

lemma well_formed_modify: "(\<And>w. wid (f w) = wid w) \<Longrightarrow> well_formed m \<Longrightarrow> well_formed (modify k f m)"
  by (erule well_formed_transfer) (simp_all add: modify_def erase_map_entry)

lemma well_formed_emit [simp]: "well_formed (emit e m) = well_formed m"
  by (simp add: well_formed_def emit_def)

lemma well_formed_focusedWindowId [simp]: "well_formed (m\<lparr>focusedWindowId := f\<rparr>) = well_formed m"
  by (simp add: well_formed_def)

lemma well_formed_pending [simp]: "well_formed (m\<lparr>pending := f\<rparr>) = well_formed m"
  by (simp add: well_formed_def)

lemma well_formed_minimizeWindow: "well_formed m \<Longrightarrow> well_formed (minimizeWindow k m)"
  by (simp add: minimizeWindow_def Let_def well_formed_focusWindow well_formed_modify
       split: option.splits)

lemma well_formed_maximizeWindow: "well_formed m \<Longrightarrow> well_formed (maximizeWindow k m)"
  by (simp add: maximizeWindow_def Let_def well_formed_modify split: option.splits)

lemma well_formed_restoreWindow: "well_formed m \<Longrightarrow> well_formed (restoreWindow k m)"
  by (simp add: restoreWindow_def Let_def well_formed_focusWindow well_formed_modify
       split: option.splits)

lemma well_formed_moveWindow: "well_formed m \<Longrightarrow> well_formed (moveWindow k p m)"
  by (simp add: moveWindow_def Let_def well_formed_modify split: option.splits)

lemma well_formed_resizeWindow: "well_formed m \<Longrightarrow> well_formed (resizeWindow k s m)"
  by (simp add: resizeWindow_def Let_def well_formed_modify split: option.splits)

lemma well_formed_runDeferred: "well_formed m \<Longrightarrow> well_formed (runDeferred m)"
  by (simp add: runDeferred_def well_formed_focusWindow split: list.splits)

lemma createWindow_result:
  assumes "createWindow k app b cs md m = Inr (w, m')"
  shows "map_of (windows m) k = None" "windows m' = windows m @ [(k, w)]"
    "windowOrder m' = windowOrder m @ [k]" "wid w = k"
    "windowConstraints m' =
       (case cs of Some c \<Rightarrow> (windowConstraints m)(k \<mapsto> c) | None \<Rightarrow> windowConstraints m)"
    "focusedWindowId m' = focusedWindowId m" "pending m' = pending m @ [k]"
    "isFocused w = False" "isMinimized w = False" "isVisible w = True"
    "zIndex w = nextZIndex m" "nextZIndex m' = nextZIndex m + 1"
  using assms
  by (auto simp: createWindow_def Let_def emit_def update_fresh split: if_splits option.splits)

lemma destroyWindow_result:
  assumes "map_of (windows m) k \<noteq> None"
  shows "windows (destroyWindow k m) = AList.delete k (windows m)"
    "windowOrder (destroyWindow k m) = filter (\<lambda>w. w \<noteq> k) (windowOrder m)"
    "windowConstraints (destroyWindow k m) = (windowConstraints m)(k := None)"
  using assms
  by (auto simp: destroyWindow_def Let_def emit_def split: option.splits)

lemma destroyWindow_absent: "map_of (windows m) k = None \<Longrightarrow> destroyWindow k m = m"
  by (simp add: destroyWindow_def)

lemma well_formed_destroyWindow: "well_formed m \<Longrightarrow> well_formed (destroyWindow k m)"
proof (cases "map_of (windows m) k")
  case None
  assume "well_formed m" with None show ?thesis by (simp add: destroyWindow_absent)
next
  case (Some a)
  assume "well_formed m"
  with Some show ?thesis
    unfolding well_formed_def
    apply (simp add: destroyWindow_result delete_keys distinct_removeAll delete_conv'
             del: AList.delete_eq)
    apply (auto simp: removeAll_filter_not_eq restrict_map_def split: if_splits)
    done
qed

lemma well_formed_createWindow:
  "well_formed m \<Longrightarrow> createWindow k app b cs md m = Inr (w, m') \<Longrightarrow> well_formed m'"
  apply (frule createWindow_result(1))
  apply (frule createWindow_result(2))
  apply (frule createWindow_result(3))
  apply (frule createWindow_result(4))
  apply (frule createWindow_result(5))
  apply (auto simp: well_formed_def map_of_eq_None_iff split: option.splits if_splits)
  done

lemma well_formed_initial: "well_formed initial_manager"
  by (simp add: well_formed_def initial_manager_def)

text \<open>Every reachable registry is well formed.  In particular the stacking order is a
  duplicate-free enumeration of exactly the live window ids.\<close>

lemma reachable_well_formed: "reachable m \<Longrightarrow> well_formed m"
  by (induction rule: reachable.induct)
     (simp_all add: well_formed_initial well_formed_createWindow well_formed_destroyWindow
        well_formed_focusWindow well_formed_minimizeWindow well_formed_maximizeWindow
        well_formed_restoreWindow well_formed_moveWindow well_formed_resizeWindow
        well_formed_runDeferred)

lemma stacking_order_lists_live_windows:
  "reachable m \<Longrightarrow> distinct (windowOrder m) \<and> set (windowOrder m) = set (map fst (windows m))"
  by (drule reachable_well_formed) (simp add: well_formed_def)

lemma reachable_opened: "reachable m \<Longrightarrow> reachable (opened k m)"
  by (auto simp: opened_def intro: r_create split: sum.splits)

lemmas scenario_defs =
  opened_def createWindow_def initial_manager_def runDeferred_def focusWindow_def
  destroyWindow_def wm_defs Let_def

section \<open>Window manager: claims\<close>

text \<open>
  Claim C1 says that in every reachable state the window at position \<open>i\<close> of the stacking
  order has z-index \<open>i + 1\<close>.  \<^verbatim>\<open>destroyWindow\<close> removes the id from the order without
  calling \<^verbatim>\<open>updateZIndices\<close> (as \<^verbatim>\<open>bringToFront\<close> does), so the windows above a destroyed
  one keep their old z-indices.  The state below is reachable, has no timer left to run,
  and its only window \<^verbatim>\<open>b\<close> sits at position 0 with z-index 2.
\<close>

theorem C1_zindex_not_renumbered_on_destroy:
  "reachable lower_window_destroyed \<and> pending lower_window_destroyed = [] \<and>
   windowOrder lower_window_destroyed = [''b''] \<and>
   map (\<lambda>(k, w). (k, zIndex w)) (windows lower_window_destroyed) = [(''b'', 2)]"
proof -
  have "reachable lower_window_destroyed"
    unfolding lower_window_destroyed_def
    by (intro r_destroy r_deferred reachable_opened r_init)
  moreover have "pending lower_window_destroyed = []"
    by (simp add: lower_window_destroyed_def scenario_defs)
  moreover have "windowOrder lower_window_destroyed = [''b'']"
    by (simp add: lower_window_destroyed_def scenario_defs)
  moreover have "map (\<lambda>(k, w). (k, zIndex w)) (windows lower_window_destroyed) = [(''b'', 2)]"
    by (simp add: lower_window_destroyed_def scenario_defs)
  ultimately show ?thesis by simp
qed

text \<open>
  Claim C2 says that in every reachable state at most one window is focused.
  \<^verbatim>\<open>focusWindow\<close> blurs the previous window only if \<^verbatim>\<open>state.focusedWindowId\<close> is truthy,
  and the empty string is not: when the focused window's id is the empty string, focusing
  another window leaves both focused.  The state below is reachable, has no timer left
  to run, and both of its windows are focused.
\<close>

theorem C2_two_windows_focused_with_empty_id:
  "reachable empty_id_then_b \<and> pending empty_id_then_b = [] \<and>
   map (\<lambda>(k, w). (k, isFocused w)) (windows empty_id_then_b) = [([], True), (''b'', True)]"
proof -
  have "reachable empty_id_then_b"
    unfolding empty_id_then_b_def
    by (intro r_deferred reachable_opened r_init)
  moreover have "pending empty_id_then_b = []"
    by (simp add: empty_id_then_b_def scenario_defs)
  moreover have "map (\<lambda>(k, w). (k, isFocused w)) (windows empty_id_then_b) = [([], True), (''b'', True)]"
    by (simp add: empty_id_then_b_def scenario_defs)
  ultimately show ?thesis by simp
qed

lemma focusWindow_constraints: "focusWindow k (m\<lparr>windowConstraints := c\<rparr>) = (focusWindow k m)\<lparr>windowConstraints := c\<rparr>"
  by (simp add: focusWindow_def wm_defs Let_def split: option.splits)

lemma focusWindow_constraints_windows:
  "focusWindow k (m\<lparr>windowConstraints := c, windows := ws\<rparr>) = (focusWindow k (m\<lparr>windows := ws\<rparr>))\<lparr>windowConstraints := c\<rparr>"
  by (simp add: focusWindow_def wm_defs Let_def split: option.splits)

lemma minimizeWindow_constraints: "minimizeWindow k (m\<lparr>windowConstraints := c\<rparr>) = (minimizeWindow k m)\<lparr>windowConstraints := c\<rparr>"
  by (simp add: minimizeWindow_def focusWindow_constraints_windows wm_defs Let_def split: option.splits)

lemma maximizeWindow_constraints: "maximizeWindow k (m\<lparr>windowConstraints := c\<rparr>) = (maximizeWindow k m)\<lparr>windowConstraints := c\<rparr>"
  by (simp add: maximizeWindow_def wm_defs Let_def split: option.splits)

lemma destroyWindow_constraints: "destroyWindow k (m\<lparr>windowConstraints := c\<rparr>) =
   (destroyWindow k m)\<lparr>windowConstraints := (if map_of (windows m) k = None then c else c(k := None))\<rparr>"
  by (simp add: destroyWindow_def wm_defs Let_def split: option.splits)

lemma minimized_updateZIndices_from:
  "map (apsnd isMinimized) (updateZIndices_from i ks ws) = map (apsnd isMinimized) ws"
  by (induction ks arbitrary: i ws) (auto simp: erase_map_entry)

lemma focusWindow_minimized:
  "map (apsnd isMinimized) (windows (focusWindow k m)) = map (apsnd isMinimized) (windows m)"
  by (simp add: focusWindow_def wm_defs Let_def erase_map_entry minimized_updateZIndices_from
       split: option.splits)

lemma focusWindow_isMinimized:
  "map_option isMinimized (map_of (windows (focusWindow j m)) k) = map_option isMinimized (map_of (windows m) k)"
  using focusWindow_minimized [of j m] by (metis map_of_erase)

lemma minimizeWindow_effect:
  assumes "map_of (windows m) k = Some w" "\<not> isMinimized w"
  shows "\<exists>w'. map_of (windows (minimizeWindow k m)) k = Some w' \<and> isMinimized w'"
proof -
  let ?m1 = "modify k (\<lambda>p. p\<lparr>isMinimized := True, isFocused := False\<rparr>) m"
  have m1: "map_option isMinimized (map_of (windows ?m1) k) = Some True"
    using assms by (simp add: modify_def map_of_map_entry)
  have "windows (minimizeWindow k m) = windows ?m1 \<or>
        (\<exists>j. windows (minimizeWindow k m) = windows (focusWindow j ?m1))"
    using assms by (auto simp: minimizeWindow_def Let_def emit_def split: option.splits)
  then have "map_option isMinimized (map_of (windows (minimizeWindow k m)) k) = Some True"
    using m1 focusWindow_isMinimized by (metis (no_types, lifting))
  then show ?thesis by auto
qed

lemma maximizeWindow_effect:
  assumes "map_of (windows m) k = Some w" "\<not> isMaximized w"
  shows "\<exists>w'. map_of (windows (maximizeWindow k m)) k = Some w' \<and> isMaximized w'"
  using assms by (simp add: maximizeWindow_def emit_def modify_def map_of_map_entry)

lemma destroyWindow_effect: "map_of (windows (destroyWindow k m)) k = None"
  by (cases "map_of (windows m) k") (simp_all add: destroyWindow_absent destroyWindow_result delete_conv')

lemma moveWindow_refused:
  "windowConstraints m k = Some cs \<Longrightarrow> canMove cs = Some False \<Longrightarrow> moveWindow k p m = m"
  by (simp add: moveWindow_def split: option.splits)

lemma resizeWindow_refused:
  "windowConstraints m k = Some cs \<Longrightarrow> canResize cs = Some False \<Longrightarrow> resizeWindow k s m = m"
  by (simp add: resizeWindow_def split: option.splits)

lemma moveWindow_effect:
  assumes "map_of (windows m) k = Some w"
    "\<not> (\<exists>cs. windowConstraints m k = Some cs \<and> canMove cs = Some False)"
  shows "\<exists>w'. map_of (windows (moveWindow k p m)) k = Some w' \<and> b_position (w_bounds w') = p"
  using assms by (auto simp add: moveWindow_def emit_def modify_def map_of_map_entry split: option.splits)

lemma resizeWindow_effect:
  assumes "map_of (windows m) k = Some w"
    "\<not> (\<exists>cs. windowConstraints m k = Some cs \<and> canResize cs = Some False)"
  shows "\<exists>w'. map_of (windows (resizeWindow k s m)) k = Some w' \<and>
            b_size (w_bounds w') = clampSize (windowConstraints m k) s"
  using assms by (auto simp add: resizeWindow_def emit_def modify_def map_of_map_entry Let_def split: option.splits)

text \<open>
  Claim C10: \<^verbatim>\<open>minimizeWindow\<close>, \<^verbatim>\<open>maximizeWindow\<close> and \<^verbatim>\<open>destroyWindow\<close> never read the
  constraint map: run on a manager whose constraint map has been replaced by any other,
  they produce the same result (up to that map, from which \<^verbatim>\<open>destroyWindow\<close> removes the
  entry of the window).  So they take full effect on every live window, whatever its
  constraint set declares: the window is minimized, maximized, or gone.  \<^verbatim>\<open>moveWindow\<close>
  and \<^verbatim>\<open>resizeWindow\<close> do nothing when the constraint set declares \<^verbatim>\<open>canMove\<close>,
  respectively \<^verbatim>\<open>canResize\<close>, to be false, and take effect otherwise.
\<close>

theorem C10_only_move_and_resize_consult_constraints:
  "minimizeWindow k (m\<lparr>windowConstraints := c\<rparr>) = (minimizeWindow k m)\<lparr>windowConstraints := c\<rparr> \<and>
   maximizeWindow k (m\<lparr>windowConstraints := c\<rparr>) = (maximizeWindow k m)\<lparr>windowConstraints := c\<rparr> \<and>
   destroyWindow k (m\<lparr>windowConstraints := c\<rparr>) =
     (destroyWindow k m)\<lparr>windowConstraints := (if map_of (windows m) k = None then c else c(k := None))\<rparr> \<and>
   (\<forall>w. map_of (windows m) k = Some w \<and> \<not> isMinimized w \<longrightarrow>
        (\<exists>w'. map_of (windows (minimizeWindow k m)) k = Some w' \<and> isMinimized w')) \<and>
   (\<forall>w. map_of (windows m) k = Some w \<and> \<not> isMaximized w \<longrightarrow>
        (\<exists>w'. map_of (windows (maximizeWindow k m)) k = Some w' \<and> isMaximized w')) \<and>
   map_of (windows (destroyWindow k m)) k = None \<and>
   (\<forall>cs. windowConstraints m k = Some cs \<and> canMove cs = Some False \<longrightarrow> moveWindow k p m = m) \<and>
   (\<forall>cs. windowConstraints m k = Some cs \<and> canResize cs = Some False \<longrightarrow> resizeWindow k s m = m) \<and>
   (\<forall>w. map_of (windows m) k = Some w \<and>
        \<not> (\<exists>cs. windowConstraints m k = Some cs \<and> canMove cs = Some False) \<longrightarrow>
        (\<exists>w'. map_of (windows (moveWindow k p m)) k = Some w' \<and> b_position (w_bounds w') = p)) \<and>
   (\<forall>w. map_of (windows m) k = Some w \<and>
        \<not> (\<exists>cs. windowConstraints m k = Some cs \<and> canResize cs = Some False) \<longrightarrow>
        (\<exists>w'. map_of (windows (resizeWindow k s m)) k = Some w' \<and>
              b_size (w_bounds w') = clampSize (windowConstraints m k) s))"
proof (intro conjI allI impI)
  show "minimizeWindow k (m\<lparr>windowConstraints := c\<rparr>) = (minimizeWindow k m)\<lparr>windowConstraints := c\<rparr>"
    by (rule minimizeWindow_constraints)
  show "maximizeWindow k (m\<lparr>windowConstraints := c\<rparr>) = (maximizeWindow k m)\<lparr>windowConstraints := c\<rparr>"
    by (rule maximizeWindow_constraints)
  show "destroyWindow k (m\<lparr>windowConstraints := c\<rparr>) =
     (destroyWindow k m)\<lparr>windowConstraints := (if map_of (windows m) k = None then c else c(k := None))\<rparr>"
    by (rule destroyWindow_constraints)
  show "map_of (windows (destroyWindow k m)) k = None"
    by (rule destroyWindow_effect)
next
  fix w assume "map_of (windows m) k = Some w \<and> \<not> isMinimized w"
  then show "\<exists>w'. map_of (windows (minimizeWindow k m)) k = Some w' \<and> isMinimized w'"
    using minimizeWindow_effect by blast
next
  fix w assume "map_of (windows m) k = Some w \<and> \<not> isMaximized w"
  then show "\<exists>w'. map_of (windows (maximizeWindow k m)) k = Some w' \<and> isMaximized w'"
    using maximizeWindow_effect by blast
next
  fix cs assume "windowConstraints m k = Some cs \<and> canMove cs = Some False"
  then show "moveWindow k p m = m" using moveWindow_refused by blast
next
  fix cs assume "windowConstraints m k = Some cs \<and> canResize cs = Some False"
  then show "resizeWindow k s m = m" using resizeWindow_refused by blast
next
  fix w assume "map_of (windows m) k = Some w \<and>
        \<not> (\<exists>cs. windowConstraints m k = Some cs \<and> canMove cs = Some False)"
  then show "\<exists>w'. map_of (windows (moveWindow k p m)) k = Some w' \<and> b_position (w_bounds w') = p"
    using moveWindow_effect by blast
next
  fix w assume "map_of (windows m) k = Some w \<and>
        \<not> (\<exists>cs. windowConstraints m k = Some cs \<and> canResize cs = Some False)"
  then show "\<exists>w'. map_of (windows (resizeWindow k s m)) k = Some w' \<and>
              b_size (w_bounds w') = clampSize (windowConstraints m k) s"
    using resizeWindow_effect by blast
qed

lemma locked_window_facts:
  "map_of (windows locked_window) ''a'' =
     Some \<lparr>wid = ''a'', w_appId = ''app'', w_bounds = defaultBounds, zIndex = 1, isFocused = True,
          isMinimized = False, isMaximized = False, isVisible = True, metadata = None\<rparr>"
  "windowConstraints locked_window ''a'' = Some forbid_all"
  by (simp_all add: locked_window_def scenario_defs defaultBounds_def)

text \<open>The witness: a window whose constraint set forbids everything is still minimized,
  maximized and destroyed, and is neither moved nor resized.\<close>

theorem C10_witness:
  "canMinimize forbid_all = Some False \<and> canMaximize forbid_all = Some False \<and>
   canClose forbid_all = Some False \<and>
   windowConstraints locked_window ''a'' = Some forbid_all \<and>
   (\<exists>w'. map_of (windows (minimizeWindow ''a'' locked_window)) ''a'' = Some w' \<and> isMinimized w') \<and>
   (\<exists>w'. map_of (windows (maximizeWindow ''a'' locked_window)) ''a'' = Some w' \<and> isMaximized w') \<and>
   map_of (windows (destroyWindow ''a'' locked_window)) ''a'' = None \<and>
   moveWindow ''a'' \<lparr>pos_x = 1, pos_y = 2\<rparr> locked_window = locked_window \<and>
   resizeWindow ''a'' \<lparr>width = 10, height = 20\<rparr> locked_window = locked_window"
  using C10_only_move_and_resize_consult_constraints
    [where k = "''a''" and m = locked_window and c = "windowConstraints locked_window"
       and p = "\<lparr>pos_x = 1, pos_y = 2\<rparr>" and s = "\<lparr>width = 10, height = 20\<rparr>"]
  by (simp add: locked_window_facts forbid_all_def)


section \<open>Window manager: persistence\<close>

subsection \<open>A saved state is read back\<close>

lemma stringify_serializable: "stringify (JObj (serializable m)) = Some (getSerializedState m)"
  by (simp add: getSerializedState_def)

lemma parse_saved: "JSON_parse (getSerializedState m) = Some (reparsed (JObj (serializable m)))"
  by (rule JSON_roundtrip [OF stringify_serializable])

lemma as_int_of_int: "as_int (of_int n) = Some n"
  by (simp add: as_int_def)

lemma as_data_reparsed:
  "as_data (reparsed v) = Some (persisted v)"
  "as_data_elements (reparsed_elements xs) = Some (persisted_elements xs)"
  "as_data_members (reparsed_members ms) = Some (persisted_members ms)"
  by (induction v and xs and ms rule: reparsed_reparsed_elements_reparsed_members.induct)
     (simp_all add: as_int_of_int)


lemma as_window_reparsed: "as_window (reparsed (window_json w)) = Some (persisted_window w)"
  by (cases w; cases "metadata w")
     (simp_all add: window_json_def bounds_json_def position_json_def size_json_def as_window_def
        as_bounds_def as_position_def as_size_def as_number_def as_string_def as_bool_def
        as_metadata_def only_keys_def field_def persisted_window_def as_int_of_int
        as_data_reparsed)

lemma entries_saved:
  "entries_of (reparsed_elements (map (\<lambda>(k, w). JArr [JStr k, window_json w]) ws)) =
     Some (map (\<lambda>(k, w). (JStr k, reparsed (window_json w))) ws)"
  by (induction ws) (auto simp: entry_of_def)

lemma as_windows_saved:
  "as_windows (map (\<lambda>(k, w). (JStr k, reparsed (window_json w))) ws) acc =
     Some (fold (\<lambda>(k, w). AList.update k (persisted_window w)) ws acc)"
  by (induction ws arbitrary: acc) (auto simp: as_string_def as_window_reparsed)

lemma fold_update_distinct:
  "distinct (map fst acc @ map fst ws) \<Longrightarrow>
     fold (\<lambda>(k, w). AList.update k (f w)) ws acc = acc @ map (apsnd f) ws"
proof (induction ws arbitrary: acc)
  case Nil
  show ?case by simp
next
  case (Cons a ws)
  obtain k w where a: "a = (k, w)" by (cases a)
  from Cons.prems a have "k \<notin> fst ` set acc" by auto
  then have "map_of acc k = None" by (simp add: map_of_eq_None_iff)
  then have u: "AList.update k (f w) acc = acc @ [(k, f w)]" by (rule update_fresh)
  from Cons.prems a have "distinct (map fst (acc @ [(k, f w)]) @ map fst ws)" by auto
  from Cons.IH [OF this] show ?case by (simp add: a u)
qed

lemma strings_saved: "reparsed_elements (map JStr ks) = map JStr ks"
  by (induction ks) simp_all

lemma as_strings_saved: "as_strings (map JStr ks) = Some ks"
  by (induction ks) (simp_all add: as_string_def)

lemma load_raw_saved:
  "load_raw (JObj (reparsed_members (serializable m))) =
     Some \<lparr>raw_windows = map (\<lambda>(k, w). (JStr k, reparsed (window_json w))) (windows m),
           raw_windowOrder = JArr (map JStr (windowOrder m)),
           raw_focusedWindowId = (case focusedWindowId m of None \<Rightarrow> JNull | Some f \<Rightarrow> JStr f),
           raw_nextZIndex = JNum (of_int (nextZIndex m))\<rparr>"
  by (cases "focusedWindowId m")
     (simp_all add: serializable_def load_raw_def field_def map_entries_def entries_saved
        strings_saved)

lemma load_saved:
  assumes "distinct (map fst (windows m))"
  shows "loadSerializedState (getSerializedState m) m0 =
           Loaded (m0\<lparr>windows := map (apsnd persisted_window) (windows m),
                      windowOrder := windowOrder m, focusedWindowId := focusedWindowId m,
                      nextZIndex := nextZIndex m\<rparr>)"
proof -
  from assms have "distinct (map fst [] @ map fst (windows m))" by simp
  from fold_update_distinct [OF this, of persisted_window]
  have "fold (\<lambda>(k, w). AList.update k (persisted_window w)) (windows m) [] =
          map (apsnd persisted_window) (windows m)"
    by simp
  then show ?thesis
    by (cases "focusedWindowId m")
       (simp_all add: loadSerializedState_def parse_saved load_raw_saved typed_state_def
          as_windows_saved as_strings_saved as_number_def as_int_of_int)
qed



lemma typed_state_constraints:
  "typed_state r m = Some m' \<Longrightarrow>
     windowConstraints m' = windowConstraints m \<and> pending m' = pending m \<and> emitted m' = emitted m"
  by (auto simp: typed_state_def split: option.splits prod.splits)

lemma constraints_after_load: "constraints_after (loadSerializedState s m) = windowConstraints m"
  by (auto simp: constraints_after_def loadSerializedState_def dest: typed_state_constraints
        split: option.splits)

lemma save_ignores_constraints:
  "getSerializedState (m\<lparr>windowConstraints := c\<rparr>) = getSerializedState m"
  by (simp add: getSerializedState_def serializable_def)

lemma rejected_iff:
  "loadSerializedState s m = Rejected m' \<longleftrightarrow>
     m' = m \<and> (JSON_parse s = None \<or> (\<exists>j. JSON_parse s = Some j \<and> load_raw j = None))"
  by (auto simp: loadSerializedState_def split: option.splits)

lemma load_raw_None:
  "load_raw j = None \<longleftrightarrow>
     j = JUndefined \<or> j = JNull \<or> (\<exists>ms. j = JObj ms \<and> map_entries (field ms ''windows'') = None)"
  by (cases j) (auto simp: load_raw_def map_entries_def split: option.splits)

lemma parse_empty_object: "JSON_parse ''{}'' = Some (JObj [])"
  by code_simp

lemma parse_null: "JSON_parse ''null'' = Some JNull"
  by code_simp

lemma parse_not_json: "JSON_parse ''{oops'' = None"
  by code_simp


lemma load_empty_object:
  "loadSerializedState ''{}'' m =
     LoadedUntyped \<lparr>raw_windows = [], raw_windowOrder = JUndefined,
                    raw_focusedWindowId = JUndefined, raw_nextZIndex = JUndefined\<rparr> m"
  by (simp add: loadSerializedState_def parse_empty_object load_raw_def field_def
        map_entries_def typed_state_def)



lemma scenario_windows:
  "windows locked_window =
     [(''a'', \<lparr>wid = ''a'', w_appId = ''app'', w_bounds = defaultBounds, zIndex = 1,
              isFocused = True, isMinimized = False, isMaximized = False, isVisible = True,
              metadata = None\<rparr>)]"
  "windows sparse_metadata_window =
     [(''a'', \<lparr>wid = ''a'', w_appId = ''app'', w_bounds = defaultBounds, zIndex = 1,
              isFocused = True, isMinimized = False, isMaximized = False, isVisible = True,
              metadata = Some [(''slots'', JArr [JUndefined])]\<rparr>)]"
  "windows tagged_window =
     [(''a'', \<lparr>wid = ''a'', w_appId = ''app'', w_bounds = defaultBounds, zIndex = 1,
              isFocused = True, isMinimized = False, isMaximized = False, isVisible = True,
              metadata = Some [(''title'', JStr ''Notes''), (''tabs'', JArr [JNum 1, JNum 2]),
                               (''pinned'', JBool True)]\<rparr>)]"
  by (simp_all add: locked_window_def sparse_metadata_window_def tagged_window_def scenario_defs
        defaultBounds_def)

text \<open>What is saved of the initial manager, and of a manager with one window.\<close>

lemma saved_initial_manager:
  \<open>getSerializedState initial_manager =
     ''{"windows":[],"windowOrder":[],"focusedWindowId":null,"nextZIndex":1}''\<close>
  by code_simp

lemma saved_locked_window:
  \<open>getSerializedState locked_window =
     ''{"windows":[["a",{"id":"a","appId":"app","bounds":{"position":{"x":50,"y":50},"size":{"width":400,"height":300}},"zIndex":1,"isFocused":true,"isMinimized":false,"isMaximized":false,"isVisible":true}]],"windowOrder":["a"],"focusedWindowId":"a","nextZIndex":2}''\<close>
  by code_simp

text \<open>A load that drops a window keeps its constraint set: after it, the constraint map
  has an entry for an id that has no window.\<close>

lemma constraints_outlive_loaded_out_window:
  "loadSerializedState (getSerializedState initial_manager) locked_window =
     Loaded (locked_window\<lparr>windows := [], windowOrder := [], focusedWindowId := None,
                            nextZIndex := 1\<rparr>) \<and>
   windowConstraints locked_window ''a'' = Some forbid_all"
  using load_saved [of initial_manager locked_window]
  by (simp add: initial_manager_def locked_window_facts)

section \<open>Window manager: persistence claims\<close>

text \<open>
  Claim C3 says that \<^verbatim>\<open>loadSerializedState\<close>, given a string that is not valid JSON or is
  valid JSON of another shape than a snapshot, leaves the state untouched and surfaces an
  error to the caller.  The source validates nothing: it keeps the state only when
  \<^verbatim>\<open>JSON.parse\<close> or \<^verbatim>\<open>new Map(parsed.windows)\<close> throws, and then it logs the error and
  returns normally.  The string \<^verbatim>\<open>{}\<close> is valid JSON of another shape; loading it into a
  manager with one window replaces the state by one with an empty window map and
  \<^verbatim>\<open>undefined\<close> for the stacking order, the focused id and the z-index counter.
\<close>

theorem C3_empty_object_counterexample:
  "map fst (windows locked_window) = [''a''] \<and>
   loadSerializedState ''{}'' locked_window =
     LoadedUntyped \<lparr>raw_windows = [], raw_windowOrder = JUndefined,
                    raw_focusedWindowId = JUndefined, raw_nextZIndex = JUndefined\<rparr>
       locked_window"
  by (simp add: load_empty_object scenario_windows)

text \<open>
  Claim C3, amended: \<^verbatim>\<open>loadSerializedState\<close> keeps the state, whole, exactly when the
  string is not valid JSON, or is valid JSON from which the new state cannot be built
  without a \<^verbatim>\<open>TypeError\<close>: the value \<^verbatim>\<open>null\<close>, or an object whose \<^verbatim>\<open>windows\<close> property
  \<^verbatim>\<open>new Map\<close> cannot iterate into entries.  The outcome is then \<open>Rejected\<close>: the error is
  written to the console and the call returns normally.  Every other string replaces the
  state.
\<close>

theorem C3_state_kept_exactly_when_load_throws:
  "(loadSerializedState s m = Rejected m' \<longleftrightarrow>
      m' = m \<and> (JSON_parse s = None \<or> (\<exists>j. JSON_parse s = Some j \<and> load_raw j = None))) \<and>
   (load_raw j = None \<longleftrightarrow>
      j = JUndefined \<or> j = JNull \<or>
      (\<exists>ms. j = JObj ms \<and> map_entries (field ms ''windows'') = None))"
  using rejected_iff [of s m m'] load_raw_None [of j] by simp

text \<open>The witness: a string that is not JSON, and the JSON text \<^verbatim>\<open>null\<close>.\<close>

theorem C3_witness:
  "loadSerializedState ''{oops'' locked_window = Rejected locked_window \<and>
   loadSerializedState ''null'' locked_window = Rejected locked_window"
  using C3_state_kept_exactly_when_load_throws
          [of "''{oops''" locked_window locked_window JNull]
        C3_state_kept_exactly_when_load_throws
          [of "''null''" locked_window locked_window JNull]
  by (simp add: parse_not_json parse_null)




text \<open>
  Claim C9: the saved string does not depend on the constraint map, and
  \<^verbatim>\<open>loadSerializedState\<close> leaves the constraint map as it was, whatever the string and
  whatever the outcome.  So after a load that produced a state, \<^verbatim>\<open>moveWindow\<close> and
  \<^verbatim>\<open>resizeWindow\<close> on a window id are refused, or take effect (with the size limits
  applied), as the constraint set held for that id before the load says; and in a state
  reached by the window operations an id that has no window has no constraint set, so a
  window that exists only through the load is moved and resized freely.  (An earlier load
  that dropped a window leaves its constraint set behind, for a later load to find.)
\<close>

theorem C9_constraints_neither_saved_nor_loaded:
  "getSerializedState (m\<lparr>windowConstraints := c\<rparr>) = getSerializedState m \<and>
   constraints_after (loadSerializedState s m) = windowConstraints m \<and>
   (\<forall>m'. loadSerializedState s m = Loaded m' \<longrightarrow>
      windowConstraints m' = windowConstraints m \<and>
      (\<forall>cs. windowConstraints m k = Some cs \<and> canMove cs = Some False \<longrightarrow>
         moveWindow k p m' = m') \<and>
      (\<forall>cs. windowConstraints m k = Some cs \<and> canResize cs = Some False \<longrightarrow>
         resizeWindow k sz m' = m') \<and>
      (\<forall>w. map_of (windows m') k = Some w \<and>
         \<not> (\<exists>cs. windowConstraints m k = Some cs \<and> canMove cs = Some False) \<longrightarrow>
         (\<exists>w'. map_of (windows (moveWindow k p m')) k = Some w' \<and>
               b_position (w_bounds w') = p)) \<and>
      (\<forall>w. map_of (windows m') k = Some w \<and>
         \<not> (\<exists>cs. windowConstraints m k = Some cs \<and> canResize cs = Some False) \<longrightarrow>
         (\<exists>w'. map_of (windows (resizeWindow k sz m')) k = Some w' \<and>
               b_size (w_bounds w') = clampSize (windowConstraints m k) sz))) \<and>
   (reachable m \<and> map_of (windows m) k = None \<longrightarrow> windowConstraints m k = None)"
proof (intro conjI allI impI)
  show "getSerializedState (m\<lparr>windowConstraints := c\<rparr>) = getSerializedState m"
    by (rule save_ignores_constraints)
  show "constraints_after (loadSerializedState s m) = windowConstraints m"
    by (rule constraints_after_load)
next
  assume a: "reachable m \<and> map_of (windows m) k = None"
  then have "well_formed m" by (simp add: reachable_well_formed)
  then have "dom (windowConstraints m) \<subseteq> set (map fst (windows m))"
    by (simp add: well_formed_def)
  moreover from a have "k \<notin> set (map fst (windows m))"
    by (simp add: map_of_eq_None_iff)
  ultimately show "windowConstraints m k = None" by blast
next
  fix m' assume l: "loadSerializedState s m = Loaded m'"
  from constraints_after_load [of s m] l
  show c: "windowConstraints m' = windowConstraints m" by (simp add: constraints_after_def)
  {
    fix cs assume "windowConstraints m k = Some cs \<and> canMove cs = Some False"
    with c show "moveWindow k p m' = m'" using moveWindow_refused [of m' k cs p] by simp
  next
    fix cs assume "windowConstraints m k = Some cs \<and> canResize cs = Some False"
    with c show "resizeWindow k sz m' = m'" using resizeWindow_refused [of m' k cs sz] by simp
  next
    fix w
    assume "map_of (windows m') k = Some w \<and>
            \<not> (\<exists>cs. windowConstraints m k = Some cs \<and> canMove cs = Some False)"
    with c show "\<exists>w'. map_of (windows (moveWindow k p m')) k = Some w' \<and>
                      b_position (w_bounds w') = p"
      using moveWindow_effect [of m' k w p] by simp
  next
    fix w
    assume "map_of (windows m') k = Some w \<and>
            \<not> (\<exists>cs. windowConstraints m k = Some cs \<and> canResize cs = Some False)"
    with c show "\<exists>w'. map_of (windows (resizeWindow k sz m')) k = Some w' \<and>
                      b_size (w_bounds w') = clampSize (windowConstraints m k) sz"
      using resizeWindow_effect [of m' k w sz] by simp
  }
qed

text \<open>The witness: a window that may not be moved is saved.  Loaded back into its own
  manager it still may not be moved; loaded into a new manager, where it exists only
  through the load, it is moved.\<close>

theorem C9_witness:
  "windowConstraints locked_window ''a'' = Some forbid_all \<and> canMove forbid_all = Some False \<and>
   loadSerializedState (getSerializedState locked_window) locked_window = Loaded locked_window \<and>
   moveWindow ''a'' \<lparr>pos_x = 1, pos_y = 2\<rparr> locked_window = locked_window \<and>
   reachable initial_manager \<and> windowConstraints initial_manager ''a'' = None \<and>
   (\<exists>m'. loadSerializedState (getSerializedState locked_window) initial_manager = Loaded m' \<and>
      (\<exists>w'. map_of (windows (moveWindow ''a'' \<lparr>pos_x = 1, pos_y = 2\<rparr> m')) ''a'' = Some w' \<and>
            b_position (w_bounds w') = \<lparr>pos_x = 1, pos_y = 2\<rparr>))"
proof -
  let ?s = "getSerializedState locked_window"
  let ?p = "\<lparr>pos_x = 1, pos_y = 2\<rparr>"
  let ?m' = "initial_manager\<lparr>windows := map (apsnd persisted_window) (windows locked_window),
               windowOrder := windowOrder locked_window,
               focusedWindowId := focusedWindowId locked_window,
               nextZIndex := nextZIndex locked_window\<rparr>"
  have d: "distinct (map fst (windows locked_window))" by (simp add: scenario_windows)
  have own: "loadSerializedState ?s locked_window = Loaded locked_window"
    using load_saved [OF d, of locked_window]
    by (simp add: scenario_windows persisted_window_def)
  have new: "loadSerializedState ?s initial_manager = Loaded ?m'"
    by (rule load_saved [OF d])
  have live: "map_of (windows ?m') ''a'' \<noteq> None"
    by (simp add: scenario_windows)
  have none: "windowConstraints initial_manager ''a'' = None"
    by (simp add: initial_manager_def)
  have cs: "windowConstraints locked_window ''a'' = Some forbid_all" "canMove forbid_all = Some False"
    by (simp_all add: locked_window_facts forbid_all_def)
  from C9_constraints_neither_saved_nor_loaded
         [where m = locked_window and s = ?s and k = "''a''" and p = ?p] own cs
  have refused: "moveWindow ''a'' ?p locked_window = locked_window" by blast
  from live obtain w where w: "map_of (windows ?m') ''a'' = Some w" by blast
  from C9_constraints_neither_saved_nor_loaded
         [where m = initial_manager and s = ?s and k = "''a''" and p = ?p] new none w
  have "\<exists>w'. map_of (windows (moveWindow ''a'' ?p ?m')) ''a'' = Some w' \<and>
             b_position (w_bounds w') = ?p"
    by simp
  with new have "\<exists>m'. loadSerializedState ?s initial_manager = Loaded m' \<and>
      (\<exists>w'. map_of (windows (moveWindow ''a'' ?p m')) ''a'' = Some w' \<and>
            b_position (w_bounds w') = ?p)"
    by blast
  with cs own refused none r_init show ?thesis by blast
qed

section \<open>Application lifecycle\<close>


lemma map_of_distinct_mem:
  "distinct (map fst al) \<Longrightarrow> (k, v) \<in> set al \<Longrightarrow> map_of al k = Some v"
  by simp

lemma find_instance_stored:
  assumes wf: "instances_wf st" and f: "findInstanceByAppId a st = Some e"
  shows "map_of (instances st) (iid e) = Some e \<and> i_appId e = a"
proof -
  from f have "e \<in> set (map snd (instances st))" "i_appId e = a"
    by (auto simp: findInstanceByAppId_def find_Some_iff)
  then obtain k where "(k, e) \<in> set (instances st)" by auto
  with wf have "map_of (instances st) k = Some e" by (simp add: instances_wf_def)
  moreover with wf have "iid e = k" by (simp add: instances_wf_def)
  ultimately show ?thesis using \<open>i_appId e = a\<close> by simp
qed


lemma find_map_entry_iid:
  assumes "\<And>x. i_appId (f x) = i_appId x" "\<And>x. iid (f x) = iid x"
  shows "map_option iid (find (\<lambda>x. i_appId x = a) (map snd (AList.map_entry k f al))) =
         map_option iid (find (\<lambda>x. i_appId x = a) (map snd al))"
  using assms by (induction al) auto

lemma instances_wf_map_entry:
  assumes "instances_wf st" "\<And>x. iid (f x) = iid x"
  shows "instances_wf (st\<lparr>instances := AList.map_entry k f (instances st)\<rparr>)"
  using assms
  by (auto simp: instances_wf_def distinct_map_entry map_of_map_entry split: option.splits if_splits)

lemma singleton_launch:
  assumes wf: "instances_wf st"
    and reg: "getApplication a st = Some app"
    and lo: "launchOptions (app_manifest app) = Some lo" "singleton lo = Some True"
    and f: "findInstanceByAppId a st = Some e"
  shows "launch a ctx now rnd st =
           Inr (e\<lparr>lastActiveTime := now\<rparr>,
                st\<lparr>instances := AList.map_entry (iid e) (\<lambda>x. x\<lparr>lastActiveTime := now\<rparr>) (instances st)\<rparr>)"
  using reg lo f find_instance_stored [OF wf f]
  by (simp add: launch_def focusInstance_def Let_def map_of_map_entry)



text \<open>The same holds when the first of the two launches is the one that creates the
  instance: see \<open>launch_twice_same_identity\<close> below.\<close>

lemma find_update_fresh:
  "find P (map snd al) = None \<Longrightarrow> P v \<Longrightarrow> find P (map snd (AList.update k v al)) = Some v"
  by (induction al) (auto split: if_splits)

lemma instances_wf_update:
  assumes "instances_wf st" "iid v = k"
  shows "instances_wf (st\<lparr>instances := AList.update k v (instances st)\<rparr>)"
  using assms by (auto simp: instances_wf_def distinct_update update_conv')

lemma instances_wf_fields [simp]:
  "instances_wf (st\<lparr>app_emitted := ev\<rparr>) = instances_wf st"
  "instances_wf (st\<lparr>messageHandlers := mh\<rparr>) = instances_wf st"
  "instances_wf (st\<lparr>applications := ap\<rparr>) = instances_wf st"
  by (simp_all add: instances_wf_def)

lemma instances_wf_transitionState: "instances_wf st \<Longrightarrow> instances_wf (transitionState i s t st)"
  by (auto simp: transitionState_def app_emit_def instances_wf_map_entry split: option.splits)

lemma transitionState_find:
  "map_option iid (findInstanceByAppId a (transitionState i s t st)) =
   map_option iid (findInstanceByAppId a st)"
  by (auto simp: transitionState_def app_emit_def findInstanceByAppId_def find_map_entry_iid
      split: option.splits)

lemma transitionState_applications [simp]:
  "applications (transitionState i s t st) = applications st"
  by (auto simp: transitionState_def app_emit_def split: option.splits)

lemma transitionState_has:
  "(map_of (instances (transitionState i s t st)) k = None) = (map_of (instances st) k = None)"
  by (auto simp: transitionState_def app_emit_def map_of_map_entry split: option.splits)

lemma transitionState_lookup:
  "map_of (instances (transitionState i s t st)) k =
     map_option (\<lambda>x. if k = i \<and> i_state x = s then x\<lparr>i_state := t\<rparr> else x) (map_of (instances st) k)"
proof (cases "map_of (instances st) i")
  case None
  then show ?thesis
    by (cases "map_of (instances st) k") (auto simp: transitionState_def)
next
  case (Some y)
  show ?thesis
  proof (cases "i_state y = s")
    case True
    with Some show ?thesis
      by (cases "k = i"; cases "map_of (instances st) k")
         (simp_all add: transitionState_def app_emit_def map_of_map_entry)
  next
    case False
    with Some show ?thesis
      by (cases "k = i"; cases "map_of (instances st) k")
         (simp_all add: transitionState_def)
  qed
qed

lemma created_launch:
  assumes wf: "instances_wf st"
    and reg: "getApplication a st = Some app"
    and none: "(if (case launchOptions (app_manifest app) of
                       Some lo \<Rightarrow> singleton lo = Some True | None \<Rightarrow> False)
                then findInstanceByAppId a st else None) = None"
    and l: "launch a ctx now rnd st = Inr (e1, st1)"
  shows "instances_wf st1 \<and> applications st1 = applications st \<and>
         iid e1 = a @ ''-'' @ show_int now @ ''-'' @ rnd \<and>
         map_of (instances st1) (iid e1) = Some e1 \<and> i_appId e1 = a \<and>
         (findInstanceByAppId a st = None \<longrightarrow>
            map_option iid (findInstanceByAppId a st1) = Some (iid e1))"
proof -
  define K where "K = a @ ''-'' @ show_int now @ ''-'' @ rnd"
  define inst where "inst = \<lparr>iid = K, i_appId = a, i_state = Loading, windowIds = [],
                 startTime = now, lastActiveTime = now, i_context = ctx\<rparr>"
  define s1 where "s1 = app_emit (AppLaunch a K ctx) (st\<lparr>instances := AList.update K inst (instances st)\<rparr>)"
  define s2 where "s2 = transitionState K Loading Running s1"
  have st1_cases: "st1 = s2 \<or> st1 = app_emit (AppError K) (transitionState K Running Crashed s2)"
    using l reg none unfolding K_def inst_def s1_def s2_def
    by (auto simp: launch_def Let_def split: option.splits hook_result.splits)
  have e1_def: "e1 = (case map_of (instances st1) K of Some x \<Rightarrow> x | None \<Rightarrow> inst)"
    using l reg none unfolding K_def inst_def s1_def s2_def
    by (auto simp: launch_def Let_def split: option.splits hook_result.splits)
  have "iid inst = K" by (simp add: inst_def)
  from instances_wf_update [OF wf this]
  have wf1: "instances_wf s1" by (simp add: s1_def app_emit_def)
  have wf2: "instances_wf s2" unfolding s2_def by (rule instances_wf_transitionState [OF wf1])
  have wf3: "instances_wf st1"
    using st1_cases wf2 by (auto simp: app_emit_def instances_wf_transitionState)
  have apps: "applications st1 = applications st"
    using st1_cases by (auto simp: app_emit_def s2_def s1_def)
  have l1: "map_of (instances s1) K = Some inst"
    by (simp add: s1_def app_emit_def update_conv')
  have l2: "\<exists>x. map_of (instances s2) K = Some x \<and> i_appId x = a"
    using l1 by (simp add: s2_def transitionState_lookup inst_def)
  have l3: "\<exists>x. map_of (instances st1) K = Some x \<and> i_appId x = a"
    using st1_cases l2 by (auto simp: transitionState_lookup app_emit_def)
  then obtain x where x: "map_of (instances st1) K = Some x" "i_appId x = a" by blast
  then have e1x: "e1 = x" by (simp add: e1_def)
  from wf3 x have id1: "iid e1 = K" by (simp add: instances_wf_def e1x)
  have f1: "findInstanceByAppId a st = None \<Longrightarrow> map_option iid (findInstanceByAppId a s1) = Some K"
    by (simp add: findInstanceByAppId_def s1_def app_emit_def find_update_fresh inst_def)
  have f2: "map_option iid (findInstanceByAppId a st1) = map_option iid (findInstanceByAppId a s1)"
  proof -
    have "map_option iid (findInstanceByAppId a s2) = map_option iid (findInstanceByAppId a s1)"
      unfolding s2_def by (rule transitionState_find)
    moreover have "map_option iid (findInstanceByAppId a (app_emit (AppError K) (transitionState K Running Crashed s2)))
        = map_option iid (findInstanceByAppId a s2)"
      using transitionState_find [of a K Running Crashed s2]
      by (simp add: findInstanceByAppId_def app_emit_def)
    ultimately show ?thesis using st1_cases by auto
  qed
  show ?thesis
    using wf3 apps id1 x e1x f1 f2 by (simp add: K_def)
qed

lemma launch_twice_same_identity:
  assumes wf: "instances_wf st"
    and reg: "getApplication a st = Some app"
    and lo: "launchOptions (app_manifest app) = Some lo" "singleton lo = Some True"
    and l: "launch a ctx now rnd st = Inr (e1, st1)"
  shows "\<exists>e2 st2. launch a ctx2 now2 rnd2 st1 = Inr (e2, st2) \<and> iid e2 = iid e1"
proof (cases "findInstanceByAppId a st")
  case (Some e)
  from singleton_launch [OF wf reg lo Some, of ctx now rnd] l
  have e1: "e1 = e\<lparr>lastActiveTime := now\<rparr>"
    and st1: "st1 = st\<lparr>instances := AList.map_entry (iid e) (\<lambda>x. x\<lparr>lastActiveTime := now\<rparr>) (instances st)\<rparr>"
    by simp_all
  have wf': "instances_wf st1" unfolding st1 by (rule instances_wf_map_entry [OF wf]) simp
  have reg': "getApplication a st1 = Some app" using reg by (simp add: st1 getApplication_def)
  have "map_option iid (findInstanceByAppId a st1) = Some (iid e)"
    using Some by (simp add: st1 findInstanceByAppId_def find_map_entry_iid)
  then obtain e' where e': "findInstanceByAppId a st1 = Some e'" "iid e' = iid e" by auto
  show ?thesis
    using singleton_launch [OF wf' reg' lo e'(1), of ctx2 now2 rnd2] e'(2) e1 by simp
next
  case None
  then have none: "(if (case launchOptions (app_manifest app) of
                       Some lo \<Rightarrow> singleton lo = Some True | None \<Rightarrow> False)
                then findInstanceByAppId a st else None) = None" by simp
  from created_launch [OF wf reg none l] None
  have wf': "instances_wf st1" and apps: "applications st1 = applications st"
    and f: "map_option iid (findInstanceByAppId a st1) = Some (iid e1)" by blast+
  have reg': "getApplication a st1 = Some app" using reg apps by (simp add: getApplication_def)
  from f obtain e' where e': "findInstanceByAppId a st1 = Some e'" "iid e' = iid e1" by auto
  show ?thesis
    using singleton_launch [OF wf' reg' lo e'(1), of ctx2 now2 rnd2] e'(2) by simp
qed


lemma instances_wf_delete:
  "instances_wf st \<Longrightarrow> instances_wf (st\<lparr>instances := AList.delete k (instances st)\<rparr>)"
  by (auto simp: instances_wf_def distinct_delete delete_conv' simp del: AList.delete_eq)

lemma instances_wf_launch:
  assumes wf: "instances_wf st" and l: "launch a ctx now rnd st = Inr (e, st1)"
  shows "instances_wf st1"
proof -
  from l obtain app where reg: "getApplication a st = Some app"
    by (auto simp: launch_def split: option.splits)
  show ?thesis
  proof (cases "(if (case launchOptions (app_manifest app) of
                       Some lo \<Rightarrow> singleton lo = Some True | None \<Rightarrow> False)
                then findInstanceByAppId a st else None)")
    case None
    from created_launch [OF wf reg None l] show ?thesis by simp
  next
    case (Some x)
    with l reg have "st1 = focusInstance (iid x) now st"
      by (auto simp: launch_def Let_def split: option.splits)
    then show ?thesis
      using instances_wf_map_entry [OF wf, of "\<lambda>x. x\<lparr>lastActiveTime := now\<rparr>"]
      by (simp add: focusInstance_def)
  qed
qed

lemma instances_wf_terminate: "instances_wf st \<Longrightarrow> instances_wf (terminate i reason st)"
  using instances_wf_delete [of "transitionState i s Stopping st" i for s]
  by (auto simp: terminate_def Let_def app_emit_def instances_wf_transitionState split: option.splits)

lemma instances_wf_removeWindowFromInstance:
  "instances_wf st \<Longrightarrow> instances_wf (removeWindowFromInstance i w st)"
  by (auto simp: removeWindowFromInstance_def Let_def instances_wf_terminate instances_wf_map_entry
      split: option.splits)

lemma instances_wf_addWindowToInstance:
  "instances_wf st \<Longrightarrow> instances_wf (addWindowToInstance i w now st)"
  by (auto simp: addWindowToInstance_def instances_wf_map_entry split: option.splits)

lemma bridge_destroy_removes_window:
  "fst bs w = Some i \<Longrightarrow> i \<noteq> [] \<Longrightarrow>
   handleWindowDestroy w bs = ((fst bs)(w := None), removeWindowFromInstance i w (snd bs))"
  by (simp add: handleWindowDestroy_def)







section \<open>Input system: claims\<close>

lemma distance_le_iff: "0 \<le> d \<Longrightarrow> (distance p q \<le> d) = ((ip_x q - ip_x p)\<^sup>2 + (ip_y q - ip_y p)\<^sup>2 \<le> d\<^sup>2)"
  unfolding distance_def
  by (metis real_sqrt_le_iff real_sqrt_abs abs_of_nonneg)

lemma distance_ge_iff: "0 \<le> d \<Longrightarrow> (d \<le> distance p q) = (d\<^sup>2 \<le> (ip_x q - ip_x p)\<^sup>2 + (ip_y q - ip_y p)\<^sup>2)"
  unfolding distance_def
  by (metis real_sqrt_le_iff real_sqrt_abs abs_of_nonneg)

lemma distance_less_iff: "0 \<le> d \<Longrightarrow> (d < distance p q) = (d\<^sup>2 < (ip_x q - ip_x p)\<^sup>2 + (ip_y q - ip_y p)\<^sup>2)"
  using distance_le_iff [of d p q] by auto

lemmas input_defs =
  processEvent_def addToHistory_def recognizeGestures_def tap_recognize_def drag_recognize_def
  swipe_recognize_def longPress_recognize_def createInputSystem_def pointer_def
  is_press_def is_move_def is_release_def distance_from_def position_or_origin_def lp_reset_def
  gestures_emitted_def List.map_filter_simps Let_def
  distance_le_iff distance_ge_iff distance_less_iff


lemma custom_gestures_ignore_context:
  "custom_gestures (map (apsnd (\<lambda>d. d\<lparr>gd_context := c\<rparr>)) ds) events = custom_gestures ds events"
  by (induction ds events rule: custom_gestures.induct) (auto split: option.splits)

text \<open>
  Claim C8 says that an event carrying no context matches every fully-unset filter, and
  that a filter field that is set matches only an equal field of the event.  In the
  interaction registry an event without context matches no filter, not even the fully
  unset one; in the shortcut registry it matches only a shortcut that has no filter
  object at all; and the shortcut registry does not compare \<^verbatim>\<open>elementType\<close>.
\<close>

theorem C8_filter_counterexample:
  "\<not> interaction_contextMatches unset_context None \<and>
   \<not> shortcut_contextMatches (Some unset_context) None \<and>
   shortcut_contextMatches (Some (unset_context\<lparr>elementType := Some ''button''\<rparr>))
     (Some (unset_context\<lparr>elementType := Some ''input''\<rparr>))"
  by (simp add: interaction_contextMatches_def shortcut_contextMatches_def unset_context_def truthy_def)

lemma interaction_contextMatches_Some:
  "interaction_contextMatches h (Some e) =
     ((truthy (windowId h) \<longrightarrow> windowId h = windowId e) \<and>
      (truthy (appId h) \<longrightarrow> appId h = appId e) \<and>
      (truthy (elementType h) \<longrightarrow> elementType h = elementType e) \<and>
      (interactionMode h \<noteq> None \<longrightarrow> interactionMode h = interactionMode e))"
  by (simp add: interaction_contextMatches_def)

lemma shortcut_contextMatches_Some:
  "shortcut_contextMatches (Some s) (Some e) =
     ((truthy (windowId s) \<longrightarrow> windowId s = windowId e) \<and>
      (truthy (appId s) \<longrightarrow> appId s = appId e) \<and>
      (interactionMode s \<noteq> None \<longrightarrow> interactionMode s = interactionMode e))"
  by (simp add: shortcut_contextMatches_def)

lemma recognizeGestures_ignore_context:
  "fst (recognizeGestures events
          (st\<lparr>gestureDefinitions := map (apsnd (\<lambda>d. d\<lparr>gd_context := c\<rparr>)) (gestureDefinitions st)\<rparr>)) =
     fst (recognizeGestures events st)"
  by (simp add: recognizeGestures_def custom_gestures_ignore_context split_def Let_def)

text \<open>
  Claim C8 as the code has it.  For an event that carries a context, an interaction
  filter matches exactly when each of \<^verbatim>\<open>windowId\<close>, \<^verbatim>\<open>appId\<close>, \<^verbatim>\<open>elementType\<close> and
  \<^verbatim>\<open>interactionMode\<close> that is set (to a non-empty value) equals the event's field, and a
  shortcut filter matches exactly when each of \<^verbatim>\<open>windowId\<close>, \<^verbatim>\<open>appId\<close> and
  \<^verbatim>\<open>interactionMode\<close> that is set equals the event's field; unset fields match anything.
  An event without context matches no interaction filter, and matches a shortcut exactly
  when the shortcut has no filter.  The filter of a gesture definition is never read:
  replacing it changes nothing in what the router recognizes.
\<close>

theorem C8_context_matching:
  "interaction_contextMatches h None = False \<and>
   interaction_contextMatches h (Some e) =
     ((truthy (windowId h) \<longrightarrow> windowId h = windowId e) \<and>
      (truthy (appId h) \<longrightarrow> appId h = appId e) \<and>
      (truthy (elementType h) \<longrightarrow> elementType h = elementType e) \<and>
      (interactionMode h \<noteq> None \<longrightarrow> interactionMode h = interactionMode e)) \<and>
   shortcut_contextMatches None ev = True \<and>
   shortcut_contextMatches (Some s) None = False \<and>
   shortcut_contextMatches (Some s) (Some e) =
     ((truthy (windowId s) \<longrightarrow> windowId s = windowId e) \<and>
      (truthy (appId s) \<longrightarrow> appId s = appId e) \<and>
      (interactionMode s \<noteq> None \<longrightarrow> interactionMode s = interactionMode e)) \<and>
   fst (recognizeGestures events
          (st\<lparr>gestureDefinitions := map (apsnd (\<lambda>d. d\<lparr>gd_context := c\<rparr>)) (gestureDefinitions st)\<rparr>)) =
     fst (recognizeGestures events st)"
proof (intro conjI)
  show "interaction_contextMatches h None = False"
    by (simp add: interaction_contextMatches_def)
  show "shortcut_contextMatches None ev = True"
    by (simp add: shortcut_contextMatches_def)
  show "shortcut_contextMatches (Some s) None = False"
    by (simp add: shortcut_contextMatches_def)
qed (rule interaction_contextMatches_Some shortcut_contextMatches_Some
       recognizeGestures_ignore_context)+


text \<open>The witness: a window filter against an event of that window and of another one, and
  a mode filter against an event in that mode and in another one.\<close>

theorem C8_witness:
  "interaction_contextMatches (unset_context\<lparr>windowId := Some ''w1''\<rparr>)
     (Some (unset_context\<lparr>windowId := Some ''w1'', appId := Some ''notes''\<rparr>)) \<and>
   \<not> interaction_contextMatches (unset_context\<lparr>windowId := Some ''w1''\<rparr>)
     (Some (unset_context\<lparr>windowId := Some ''w2'', appId := Some ''notes''\<rparr>)) \<and>
   shortcut_contextMatches (Some (unset_context\<lparr>interactionMode := Some AppMode\<rparr>))
     (Some (unset_context\<lparr>windowId := Some ''w2'', interactionMode := Some AppMode\<rparr>)) \<and>
   \<not> shortcut_contextMatches (Some (unset_context\<lparr>interactionMode := Some AppMode\<rparr>))
     (Some (unset_context\<lparr>windowId := Some ''w2'', interactionMode := Some SystemMode\<rparr>))"
proof -
  note a = C8_context_matching
     [where h = "unset_context\<lparr>windowId := Some ''w1''\<rparr>"
        and e = "unset_context\<lparr>windowId := Some ''w1'', appId := Some ''notes''\<rparr>"
        and s = "unset_context\<lparr>interactionMode := Some AppMode\<rparr>"]
  note b = C8_context_matching
     [where h = "unset_context\<lparr>windowId := Some ''w1''\<rparr>"
        and e = "unset_context\<lparr>windowId := Some ''w2'', appId := Some ''notes''\<rparr>"
        and s = "unset_context\<lparr>interactionMode := Some AppMode\<rparr>"]
  note c = C8_context_matching
     [where e = "unset_context\<lparr>windowId := Some ''w2'', interactionMode := Some AppMode\<rparr>"
        and s = "unset_context\<lparr>interactionMode := Some AppMode\<rparr>"]
  note d = C8_context_matching
     [where e = "unset_context\<lparr>windowId := Some ''w2'', interactionMode := Some SystemMode\<rparr>"
        and s = "unset_context\<lparr>interactionMode := Some AppMode\<rparr>"]
  have 1: "interaction_contextMatches (unset_context\<lparr>windowId := Some ''w1''\<rparr>)
     (Some (unset_context\<lparr>windowId := Some ''w1'', appId := Some ''notes''\<rparr>))"
    using a by (simp add: unset_context_def truthy_def)
  have 2: "\<not> interaction_contextMatches (unset_context\<lparr>windowId := Some ''w1''\<rparr>)
     (Some (unset_context\<lparr>windowId := Some ''w2'', appId := Some ''notes''\<rparr>))"
    using b by (simp add: unset_context_def truthy_def)
  have 3: "shortcut_contextMatches (Some (unset_context\<lparr>interactionMode := Some AppMode\<rparr>))
     (Some (unset_context\<lparr>windowId := Some ''w2'', interactionMode := Some AppMode\<rparr>))"
    using c by (simp add: unset_context_def truthy_def)
  have 4: "\<not> shortcut_contextMatches (Some (unset_context\<lparr>interactionMode := Some AppMode\<rparr>))
     (Some (unset_context\<lparr>windowId := Some ''w2'', interactionMode := Some SystemMode\<rparr>))"
    using d by (simp add: unset_context_def truthy_def)
  from 1 2 3 4 show ?thesis by blast
qed

lemma tap_scenario_gestures: "gestures_emitted tap_scenario = [(Tap, GStart), (Tap, GEnd)]"
  by (simp add: tap_scenario_def input_defs)

lemma drag_scenario_gestures:
  "gestures_emitted drag_scenario = [(Tap, GStart), (Drag, GStart), (Drag, GEnd)]"
  by (simp add: drag_scenario_def input_defs)

text \<open>
  Claim C7 says that the press, move, release sequence yields no tap gesture.  The tap
  recognizer returns a gesture of type \<^verbatim>\<open>tap\<close> in state \<^verbatim>\<open>start\<close> on every press that begins
  an attempt, and the router emits it as \<^verbatim>\<open>gesture.recognized\<close>.
\<close>

theorem C7_tap_start_in_drag_scenario:
  "gestures_emitted drag_scenario = [(Tap, GStart), (Drag, GStart), (Drag, GEnd)] \<and>
   (Tap, GStart) \<in> set (gestures_emitted drag_scenario)"
  by (simp add: drag_scenario_gestures)

text \<open>
  Claim C7 as the code has it: the press and the release at (3,3) after 120 time units
  yield a tap \<^verbatim>\<open>start\<close> at the press and a tap \<^verbatim>\<open>end\<close> at the release, and no drag gesture;
  the press, the move to (20,0) and the release after 200 time units yield the tap
  \<^verbatim>\<open>start\<close> of the press, then a drag \<^verbatim>\<open>start\<close>, then a drag \<^verbatim>\<open>end\<close>, and no tap \<^verbatim>\<open>end\<close>.
\<close>

theorem C7_tap_and_drag_scenarios:
  "gestures_emitted tap_scenario = [(Tap, GStart), (Tap, GEnd)] \<and>
   gestures_emitted drag_scenario = [(Tap, GStart), (Drag, GStart), (Drag, GEnd)]"
  by (simp add: tap_scenario_gestures drag_scenario_gestures)


end
